theory Spec2Isabelle
  imports Main
begin

section \<open>Data model of the verification loop and the loss-cut judgment (types.ts)\<close>

text \<open>
  JavaScript numbers that hold counters and millisecond timestamps are modelled as
  \<open>int\<close>. A value that may be \<open>null\<close> or \<open>undefined\<close> is an \<open>option\<close>.
\<close>

datatype Step = StepTypecheck | StepLint | StepTest

record ErrorInfo =
  step :: Step
  message :: string
  timestamp :: int

datatype ComplexityDelta = Increased | Unchanged | Decreased

text \<open>
  \<open>ErrorRecord.error\<close> is declared as \<open>ErrorInfo\<close>, but the verification loop stores
  \<open>e.result.error!\<close>, and the non-null assertion does nothing at run time: a failing
  check result without an \<open>error\<close> stores \<open>undefined\<close>. \<open>None\<close> is that value.
\<close>

record ErrorRecord =
  error :: "ErrorInfo option"
  fixAttempt :: string
  complexityDelta :: ComplexityDelta

datatype LossCutDecision = Continue | Cut

record LossCutContext =
  errorCount :: int
  startedAt :: int
  lastError :: "ErrorInfo option"
  errorHistory :: "ErrorRecord list"
  lossCutDecision :: "LossCutDecision option"

text \<open>Reading a property of \<open>undefined\<close> throws a TypeError.\<close>

datatype RuntimeError = TypeError

section \<open>Guard functions of the loss-cut judgment (losscut-judgment.ts)\<close>

text \<open>
  The guards are shared by the stand-alone machine and by the verification loop, whose
  context extends \<open>LossCutContext\<close>; they are therefore stated on the record scheme.
  \<open>Date.now()\<close> is the parameter \<open>now\<close>.
\<close>

definition checkErrorCount3OrMore :: "'a LossCutContext_scheme \<Rightarrow> bool" where
  "checkErrorCount3OrMore ctx = (errorCount ctx \<ge> 3)"

definition checkOver30Min :: "int \<Rightarrow> 'a LossCutContext_scheme \<Rightarrow> bool" where
  "checkOver30Min now ctx = (now - startedAt ctx \<ge> 1800000)"

definition checkGrowingComplexity :: "'a LossCutContext_scheme \<Rightarrow> bool" where
  "checkGrowingComplexity ctx =
     (case errorHistory ctx of
        [] \<Rightarrow> False
      | _ # _ \<Rightarrow> complexityDelta (last (errorHistory ctx)) = Increased)"

text \<open>
  \<open>Array.prototype.some\<close> over the records in order; the callback reads
  \<open>record.error.message\<close> first, which throws on a record whose \<open>error\<close> is
  \<open>undefined\<close>, and stops at the first record that matches.
\<close>

fun someSameError :: "ErrorInfo \<Rightarrow> ErrorRecord list \<Rightarrow> RuntimeError + bool" where
  "someSameError current [] = Inr False"
| "someSameError current (r # rs) =
     (case error r of
        None \<Rightarrow> Inl TypeError
      | Some e \<Rightarrow>
          if message e = message current \<and> step e = step current then Inr True
          else someSameError current rs)"

text \<open>\<open>slice(0, -1)\<close> drops the last entry and is empty on the empty array: \<open>butlast\<close>.\<close>

definition checkRecurringError :: "'a LossCutContext_scheme \<Rightarrow> RuntimeError + bool" where
  "checkRecurringError ctx =
     (case lastError ctx of
        None \<Rightarrow> Inr False
      | Some current \<Rightarrow> someSameError current (butlast (errorHistory ctx)))"

section \<open>The loss-cut judgment machine (lossCutJudgmentMachine)\<close>

datatype LCState =
    RecordErrorState | Check3Times | Check30Min | CheckComplexity | CheckRecurrence
  | ContinueFix | LossCutConfirmed

datatype LossCutEvent = ERROR_STATE_RECORDED

text \<open>The states that carry eventless (\<open>always\<close>) transitions.\<close>

fun lc_transient :: "LCState \<Rightarrow> bool" where
  "lc_transient Check3Times = True"
| "lc_transient Check30Min = True"
| "lc_transient CheckComplexity = True"
| "lc_transient CheckRecurrence = True"
| "lc_transient _ = False"

text \<open>
  One eventless transition: the guarded branch first, the unguarded fallback second.
  A state without \<open>always\<close> transitions stays where it is.
\<close>

fun lc_always ::
  "int \<Rightarrow> LCState \<Rightarrow> 'a LossCutContext_scheme \<Rightarrow>
   RuntimeError + (LCState \<times> 'a LossCutContext_scheme)" where
  "lc_always now Check3Times ctx =
     (if checkErrorCount3OrMore ctx
      then Inr (LossCutConfirmed, ctx\<lparr>lossCutDecision := Some Cut\<rparr>)
      else Inr (Check30Min, ctx))"
| "lc_always now Check30Min ctx =
     (if checkOver30Min now ctx
      then Inr (LossCutConfirmed, ctx\<lparr>lossCutDecision := Some Cut\<rparr>)
      else Inr (CheckComplexity, ctx))"
| "lc_always now CheckComplexity ctx =
     (if checkGrowingComplexity ctx
      then Inr (LossCutConfirmed, ctx\<lparr>lossCutDecision := Some Cut\<rparr>)
      else Inr (CheckRecurrence, ctx))"
| "lc_always now CheckRecurrence ctx =
     (case checkRecurringError ctx of
        Inl e \<Rightarrow> Inl e
      | Inr b \<Rightarrow>
          if b then Inr (LossCutConfirmed, ctx\<lparr>lossCutDecision := Some Cut\<rparr>)
          else Inr (ContinueFix, ctx\<lparr>lossCutDecision := Some Continue\<rparr>))"
| "lc_always now s ctx = Inr (s, ctx)"

fun lc_rank :: "LCState \<Rightarrow> nat" where
  "lc_rank Check3Times = 4"
| "lc_rank Check30Min = 3"
| "lc_rank CheckComplexity = 2"
| "lc_rank CheckRecurrence = 1"
| "lc_rank _ = 0"

lemma lc_always_rank:
  "lc_transient s \<Longrightarrow> lc_always now s ctx = Inr (s', ctx') \<Longrightarrow> lc_rank s' < lc_rank s"
  by (cases s) (auto split: if_splits sum.splits)

text \<open>
  The macrostep: eventless transitions are taken until a state without them is reached.
  The result lists the states entered on the way, the starting state first, with the
  context at the end.
\<close>

function lc_settle ::
  "int \<Rightarrow> LCState \<Rightarrow> 'a LossCutContext_scheme \<Rightarrow>
   RuntimeError + (LCState list \<times> 'a LossCutContext_scheme)" where
  "lc_settle now s ctx =
     (if lc_transient s then
        (case lc_always now s ctx of
           Inl e \<Rightarrow> Inl e
         | Inr (s', ctx') \<Rightarrow>
             (case lc_settle now s' ctx' of
                Inl e \<Rightarrow> Inl e
              | Inr (p, c) \<Rightarrow> Inr (s # p, c)))
      else Inr ([s], ctx))"
  by pat_completeness auto
termination
  by (relation "measure (\<lambda>(now, s, ctx). lc_rank s)") (auto dest: lc_always_rank)

declare lc_settle.simps [simp del]

text \<open>
  A run of the machine started in \<open>recordErrorState\<close> with the given context: the entry
  action \<open>recordCurrentErrorState\<close> does nothing, the only event moves to
  \<open>check3Times\<close>, and the chain settles.
\<close>

definition lc_send ::
  "int \<Rightarrow> LossCutEvent \<Rightarrow> 'a LossCutContext_scheme \<Rightarrow>
   RuntimeError + (LCState list \<times> 'a LossCutContext_scheme)" where
  "lc_send now ev ctx =
     (case ev of ERROR_STATE_RECORDED \<Rightarrow>
        (case lc_settle now Check3Times ctx of
           Inl e \<Rightarrow> Inl e
         | Inr (p, c) \<Rightarrow> Inr (RecordErrorState # p, c)))"

text \<open>The machine's \<open>output\<close>: \<open>context.lossCutDecision ?? 'continue'\<close>.\<close>

definition lc_output :: "'a LossCutContext_scheme \<Rightarrow> LossCutDecision" where
  "lc_output ctx = (case lossCutDecision ctx of None \<Rightarrow> Continue | Some d \<Rightarrow> d)"

definition lc_judge :: "int \<Rightarrow> 'a LossCutContext_scheme \<Rightarrow> RuntimeError + LossCutDecision" where
  "lc_judge now ctx =
     (case lc_send now ERROR_STATE_RECORDED ctx of
        Inl e \<Rightarrow> Inl e
      | Inr (p, c) \<Rightarrow> Inr (lc_output c))"

text \<open>Every record of the history has the \<open>error\<close> its declared type promises.\<close>

definition wellTyped :: "'a LossCutContext_scheme \<Rightarrow> bool" where
  "wellTyped ctx = list_all (\<lambda>r. error r \<noteq> None) (errorHistory ctx)"

text \<open>
  The recurrence condition in the specification's words: the current failure's
  (stage, message) pair equals that of an entry of the history other than the last one.
\<close>

definition recursEarlier :: "'a LossCutContext_scheme \<Rightarrow> bool" where
  "recursEarlier ctx =
     (case lastError ctx of
        None \<Rightarrow> False
      | Some current \<Rightarrow>
          list_ex (\<lambda>r. case error r of
                         None \<Rightarrow> False
                       | Some e \<Rightarrow> step e = step current \<and> message e = message current)
                  (butlast (errorHistory ctx)))"

section \<open>The recovery flow and the escalation judgment (recoveryFlowMachine)\<close>

record ProblemAnalysis =
  verbalization :: string
  causeAnalysis :: string
  essenceIdentification :: string
  hasSecurityIssue :: bool
  hasProductionImpact :: bool
  hasDataLossRisk :: bool
  retreatCount :: int
  isUnknownCause :: bool
  isOutOfSkillScope :: bool

record FailureRecord =
  pattern :: string
  workaround :: string
  recordedAt :: int

datatype EscalationResult = Escalate | Self

datatype Approach = ApproachA | ApproachB | ApproachC | ApproachD

record RecoveryFlowContext =
  rf_lastError :: "ErrorInfo option"
  rf_errorHistory :: "ErrorRecord list"
  analysisResult :: "ProblemAnalysis option"
  selectedApproach :: "Approach option"
  escalationResult :: "EscalationResult option"
  failureRecord :: "FailureRecord option"
  shouldShareWithTeam :: bool

record RecoveryFlowOutput =
  recovered :: bool

datatype RecoveryFlowEvent =
    PROBLEM_VERBALIZED | CAUSE_ANALYZED | ESSENCE_IDENTIFIED ProblemAnalysis
  | ESCALATION_DECIDED | HUMAN_FIX_COMPLETE | AI_EXPLANATION_RECEIVED
  | REDECOMPOSE_COMPLETE | CONTEXT_RESET_COMPLETE | TEAM_CONSULTED
  | CLAUDE_MD_RECORDED | WORKAROUND_DOCUMENTED | TEAM_SHARED

definition checkImmediateEscalationNeeded :: "ProblemAnalysis option \<Rightarrow> bool" where
  "checkImmediateEscalationNeeded analysis =
     (case analysis of
        None \<Rightarrow> False
      | Some a \<Rightarrow> hasSecurityIssue a \<or> hasProductionImpact a \<or> hasDataLossRisk a)"

definition checkDelayedEscalationNeeded :: "ProblemAnalysis option \<Rightarrow> bool" where
  "checkDelayedEscalationNeeded analysis =
     (case analysis of
        None \<Rightarrow> False
      | Some a \<Rightarrow> retreatCount a \<ge> 3 \<or> isUnknownCause a \<or> isOutOfSkillScope a)"

text \<open>
  The leaf states. \<open>PA\<close>, \<open>EJ\<close> and \<open>DR\<close> prefix the children of the compound states
  \<open>problemAnalysis\<close>, \<open>escalationJudgment\<close> and \<open>directResolution\<close>.
\<close>

datatype RFState =
    PA_VerbalizeProblem | PA_AnalyzeCause | PA_IdentifyEssence
  | EscalationCheck
  | EJ_CheckImmediate | EJ_ExecuteImmediate | EJ_Check30Min | EJ_Consider30Min
  | EJ_EscalationConfirmed | EJ_SelfResolution
  | ApproachSelection
  | DR_HumanDirectFix | DR_AskAiExplanation
  | Redecompose | ResetContext | ConsultTeam
  | RecordToClaudeMd | DocumentWorkaround | TeamShareDecision | ShareWithTeam
  | RecoveryComplete

text \<open>
  The named actions. In the machine as written each of them does nothing; the logic is
  injected from outside (\<open>provide\<close>), and an injected action may assign to the context.
  An implementation of the actions is a function from the action to a context update.
\<close>

datatype RFAction =
    ActVerbalizeProblem | ActAnalyzeCause | ActIdentifyEssence | ActSelectApproach
  | ActHumanDirectFix | ActAskAiExplanation | ActRedecomposeProblem | ActResetContext
  | ActConsultTeam | ActExecuteImmediateEscalation | ActConsiderEscalation
  | ActRecordFailurePattern | ActDocumentWorkaround | ActShareWithTeam

type_synonym RFActions = "RFAction \<Rightarrow> RecoveryFlowContext \<Rightarrow> RecoveryFlowContext"

definition rf_noActions :: RFActions where
  "rf_noActions a ctx = ctx"

fun rf_entry :: "RFState \<Rightarrow> RFAction list" where
  "rf_entry PA_VerbalizeProblem = [ActVerbalizeProblem]"
| "rf_entry PA_AnalyzeCause = [ActAnalyzeCause]"
| "rf_entry PA_IdentifyEssence = [ActIdentifyEssence]"
| "rf_entry EJ_ExecuteImmediate = [ActExecuteImmediateEscalation]"
| "rf_entry EJ_Consider30Min = [ActConsiderEscalation]"
| "rf_entry ApproachSelection = [ActSelectApproach]"
| "rf_entry DR_HumanDirectFix = [ActHumanDirectFix]"
| "rf_entry DR_AskAiExplanation = [ActAskAiExplanation]"
| "rf_entry Redecompose = [ActRedecomposeProblem]"
| "rf_entry ResetContext = [ActResetContext]"
| "rf_entry ConsultTeam = [ActConsultTeam]"
| "rf_entry RecordToClaudeMd = [ActRecordFailurePattern]"
| "rf_entry DocumentWorkaround = [ActDocumentWorkaround]"
| "rf_entry ShareWithTeam = [ActShareWithTeam]"
| "rf_entry _ = []"

text \<open>Entering a state runs its entry actions on the context.\<close>

definition rf_enter ::
  "RFActions \<Rightarrow> RFState \<Rightarrow> RecoveryFlowContext \<Rightarrow> RFState \<times> RecoveryFlowContext" where
  "rf_enter impl s ctx = (s, fold impl (rf_entry s) ctx)"

text \<open>
  The transitions on events. An event that the current state does not handle is dropped.
  A transition into \<open>escalationJudgment\<close> enters its initial child \<open>checkImmediate\<close>, one
  into \<open>directResolution\<close> its initial child \<open>humanDirectFix\<close>.
\<close>

definition rf_on ::
  "RFActions \<Rightarrow> RecoveryFlowEvent \<Rightarrow> RFState \<Rightarrow> RecoveryFlowContext \<Rightarrow>
   RFState \<times> RecoveryFlowContext" where
  "rf_on impl ev s ctx =
     (case s of
        PA_VerbalizeProblem \<Rightarrow>
          (case ev of PROBLEM_VERBALIZED \<Rightarrow> rf_enter impl PA_AnalyzeCause ctx
                    | _ \<Rightarrow> (s, ctx))
      | PA_AnalyzeCause \<Rightarrow>
          (case ev of CAUSE_ANALYZED \<Rightarrow> rf_enter impl PA_IdentifyEssence ctx
                    | _ \<Rightarrow> (s, ctx))
      | PA_IdentifyEssence \<Rightarrow>
          (case ev of
             ESSENCE_IDENTIFIED a \<Rightarrow>
               rf_enter impl EscalationCheck (ctx\<lparr>analysisResult := Some a\<rparr>)
           | _ \<Rightarrow> (s, ctx))
      | EJ_ExecuteImmediate \<Rightarrow>
          (case ev of
             ESCALATION_DECIDED \<Rightarrow>
               rf_enter impl EJ_EscalationConfirmed (ctx\<lparr>escalationResult := Some Escalate\<rparr>)
           | _ \<Rightarrow> (s, ctx))
      | EJ_Consider30Min \<Rightarrow>
          (case ev of
             ESCALATION_DECIDED \<Rightarrow>
               rf_enter impl EJ_EscalationConfirmed (ctx\<lparr>escalationResult := Some Escalate\<rparr>)
           | _ \<Rightarrow> (s, ctx))
      | DR_HumanDirectFix \<Rightarrow>
          (case ev of HUMAN_FIX_COMPLETE \<Rightarrow> rf_enter impl DR_AskAiExplanation ctx
                    | _ \<Rightarrow> (s, ctx))
      | DR_AskAiExplanation \<Rightarrow>
          (case ev of AI_EXPLANATION_RECEIVED \<Rightarrow> rf_enter impl RecordToClaudeMd ctx
                    | _ \<Rightarrow> (s, ctx))
      | Redecompose \<Rightarrow>
          (case ev of REDECOMPOSE_COMPLETE \<Rightarrow> rf_enter impl RecordToClaudeMd ctx
                    | _ \<Rightarrow> (s, ctx))
      | ResetContext \<Rightarrow>
          (case ev of CONTEXT_RESET_COMPLETE \<Rightarrow> rf_enter impl RecordToClaudeMd ctx
                    | _ \<Rightarrow> (s, ctx))
      | ConsultTeam \<Rightarrow>
          (case ev of TEAM_CONSULTED \<Rightarrow> rf_enter impl RecordToClaudeMd ctx
                    | _ \<Rightarrow> (s, ctx))
      | RecordToClaudeMd \<Rightarrow>
          (case ev of CLAUDE_MD_RECORDED \<Rightarrow> rf_enter impl DocumentWorkaround ctx
                    | _ \<Rightarrow> (s, ctx))
      | DocumentWorkaround \<Rightarrow>
          (case ev of WORKAROUND_DOCUMENTED \<Rightarrow> rf_enter impl TeamShareDecision ctx
                    | _ \<Rightarrow> (s, ctx))
      | ShareWithTeam \<Rightarrow>
          (case ev of TEAM_SHARED \<Rightarrow> rf_enter impl RecoveryComplete ctx
                    | _ \<Rightarrow> (s, ctx))
      | _ \<Rightarrow> (s, ctx))"

text \<open>
  The eventless transitions (\<open>always\<close>, and \<open>onDone\<close> of \<open>escalationJudgment\<close> once one
  of its final children is reached), first matching guard first.
\<close>

fun rf_always ::
  "RFActions \<Rightarrow> RFState \<Rightarrow> RecoveryFlowContext \<Rightarrow> RFState \<times> RecoveryFlowContext" where
  "rf_always impl EscalationCheck ctx =
     (if checkImmediateEscalationNeeded (analysisResult ctx)
      then rf_enter impl EJ_CheckImmediate ctx
      else rf_enter impl ApproachSelection ctx)"
| "rf_always impl EJ_CheckImmediate ctx =
     (if checkImmediateEscalationNeeded (analysisResult ctx)
      then rf_enter impl EJ_ExecuteImmediate ctx
      else rf_enter impl EJ_Check30Min ctx)"
| "rf_always impl EJ_Check30Min ctx =
     (if checkDelayedEscalationNeeded (analysisResult ctx)
      then rf_enter impl EJ_Consider30Min ctx
      else rf_enter impl EJ_SelfResolution (ctx\<lparr>escalationResult := Some Self\<rparr>))"
| "rf_always impl EJ_EscalationConfirmed ctx =
     (if escalationResult ctx = Some Escalate
      then rf_enter impl ConsultTeam ctx
      else rf_enter impl ApproachSelection ctx)"
| "rf_always impl EJ_SelfResolution ctx =
     (if escalationResult ctx = Some Escalate
      then rf_enter impl ConsultTeam ctx
      else rf_enter impl ApproachSelection ctx)"
| "rf_always impl ApproachSelection ctx =
     (if selectedApproach ctx = Some ApproachA then rf_enter impl DR_HumanDirectFix ctx
      else if selectedApproach ctx = Some ApproachB then rf_enter impl Redecompose ctx
      else if selectedApproach ctx = Some ApproachC then rf_enter impl ResetContext ctx
      else rf_enter impl EJ_CheckImmediate ctx)"
| "rf_always impl TeamShareDecision ctx =
     (if shouldShareWithTeam ctx
      then rf_enter impl ShareWithTeam ctx
      else rf_enter impl RecoveryComplete ctx)"
| "rf_always impl s ctx = (s, ctx)"

text \<open>
  One step of a run: an event is delivered, or one eventless transition is taken. The
  chain of eventless transitions from \<open>approachSelection\<close> through the escalation
  judgment and back need not end, so a run is a list of single steps, each with the
  implementation of the actions in force at that step.
\<close>

datatype RFInput = RFEvent RecoveryFlowEvent | RFTau

fun rf_step ::
  "RFActions \<Rightarrow> RFInput \<Rightarrow> RFState \<times> RecoveryFlowContext \<Rightarrow>
   RFState \<times> RecoveryFlowContext" where
  "rf_step impl (RFEvent ev) (s, ctx) = rf_on impl ev s ctx"
| "rf_step impl RFTau (s, ctx) = rf_always impl s ctx"

fun rf_run ::
  "(RFActions \<times> RFInput) list \<Rightarrow> RFState \<times> RecoveryFlowContext \<Rightarrow>
   (RFState \<times> RecoveryFlowContext) list" where
  "rf_run [] cfg = [cfg]"
| "rf_run ((impl, i) # steps) cfg = cfg # rf_run steps (rf_step impl i cfg)"

definition rf_initialContext :: RecoveryFlowContext where
  "rf_initialContext =
     \<lparr>rf_lastError = None, rf_errorHistory = [], analysisResult = None,
      selectedApproach = None, escalationResult = None, failureRecord = None,
      shouldShareWithTeam = False\<rparr>"

definition rf_start :: "RFActions \<Rightarrow> RFState \<times> RecoveryFlowContext" where
  "rf_start impl = rf_enter impl PA_VerbalizeProblem rf_initialContext"

definition rf_output :: "RecoveryFlowContext \<Rightarrow> RecoveryFlowOutput" where
  "rf_output ctx = \<lparr>recovered = True\<rparr>"

text \<open>
  A trace of states records first: no state of the documentation, sharing or completion
  steps occurs before the first \<open>recordToClaudeMd\<close>.
\<close>

fun recordedFirst :: "RFState list \<Rightarrow> bool" where
  "recordedFirst [] = True"
| "recordedFirst (s # ss) =
     (if s = RecordToClaudeMd then True
      else s \<noteq> DocumentWorkaround \<and> s \<noteq> TeamShareDecision \<and> s \<noteq> ShareWithTeam
           \<and> s \<noteq> RecoveryComplete \<and> recordedFirst ss)"

section \<open>The verification loop (verificationLoopMachine)\<close>

record CheckResult =
  cr_passed :: bool
  cr_error :: "ErrorInfo option"

record PrincipleCheckResult =
  pcr_passed :: bool
  pcr_violations :: "string list"

record VerificationLoopContext = LossCutContext +
  currentStep :: Step
  collaborationCheckResult :: "PrincipleCheckResult option"
  aiPrincipleCheckResult :: "PrincipleCheckResult option"

text \<open>The event \<open>ERROR_STATE_RECORDED\<close> of the union is the loss-cut event.\<close>

datatype VerificationLoopEvent =
    TYPECHECK_COMPLETE CheckResult | LINT_COMPLETE CheckResult | TEST_COMPLETE CheckResult
  | LCEvent LossCutEvent | FIX_ISSUED

record SP3OutputExtended =
  passed :: bool
  lossCut :: bool
  out_lastError :: "ErrorInfo option"
  out_errorHistory :: "ErrorRecord list"
  principleViolation :: bool

text \<open>The leaf states; \<open>LossCutJudgment\<close> carries the child state of the compound state.\<close>

datatype VLState =
    Typecheck | Lint | Test | LossCutJudgment LCState | IssueFix
  | VerificationPassed | VerificationFailed

datatype VLAction =
    ActRunTypecheck | ActRunLint | ActRunTest
  | ActCheckCollaborationPrinciples | ActCheckAIPrinciples
  | ActRecordCurrentErrorState | ActIssueFixInstruction

text \<open>
  As in the recovery flow, every named action does nothing in the machine as written and
  its logic is injected from outside.
\<close>

type_synonym VLActions = "VLAction \<Rightarrow> VerificationLoopContext \<Rightarrow> VerificationLoopContext"

definition vl_noActions :: VLActions where
  "vl_noActions a ctx = ctx"

fun vl_entry :: "VLState \<Rightarrow> VLAction list" where
  "vl_entry Typecheck =
     [ActRunTypecheck, ActCheckCollaborationPrinciples, ActCheckAIPrinciples]"
| "vl_entry Lint = [ActRunLint, ActCheckCollaborationPrinciples, ActCheckAIPrinciples]"
| "vl_entry Test = [ActRunTest, ActCheckCollaborationPrinciples, ActCheckAIPrinciples]"
| "vl_entry (LossCutJudgment RecordErrorState) = [ActRecordCurrentErrorState]"
| "vl_entry IssueFix = [ActIssueFixInstruction]"
| "vl_entry _ = []"

definition vl_enter ::
  "VLActions \<Rightarrow> VLState \<Rightarrow> VerificationLoopContext \<Rightarrow> VLState \<times> VerificationLoopContext" where
  "vl_enter impl s ctx = (s, fold impl (vl_entry s) ctx)"

text \<open>
  The assignment of the failing branch of a check: the count goes up by one, the last
  error is \<open>result.error ?? null\<close>, and a record with \<open>result.error!\<close>, an empty fix
  attempt and the complexity trend \<open>'unchanged'\<close> is appended to the history.
\<close>

definition recordFailure :: "CheckResult \<Rightarrow> VerificationLoopContext \<Rightarrow> VerificationLoopContext" where
  "recordFailure r ctx =
     ctx\<lparr>errorCount := errorCount ctx + 1,
         lastError := cr_error r,
         errorHistory :=
           errorHistory ctx
           @ [\<lparr>error = cr_error r, fixAttempt = [], complexityDelta = Unchanged\<rparr>]\<rparr>"

definition vl_on ::
  "VLActions \<Rightarrow> VerificationLoopEvent \<Rightarrow> VLState \<Rightarrow> VerificationLoopContext \<Rightarrow>
   VLState \<times> VerificationLoopContext" where
  "vl_on impl ev s ctx =
     (case s of
        Typecheck \<Rightarrow>
          (case ev of
             TYPECHECK_COMPLETE r \<Rightarrow>
               if cr_passed r then vl_enter impl Lint ctx
               else vl_enter impl (LossCutJudgment RecordErrorState) (recordFailure r ctx)
           | _ \<Rightarrow> (s, ctx))
      | Lint \<Rightarrow>
          (case ev of
             LINT_COMPLETE r \<Rightarrow>
               if cr_passed r then vl_enter impl Test ctx
               else vl_enter impl (LossCutJudgment RecordErrorState) (recordFailure r ctx)
           | _ \<Rightarrow> (s, ctx))
      | Test \<Rightarrow>
          (case ev of
             TEST_COMPLETE r \<Rightarrow>
               if cr_passed r then vl_enter impl VerificationPassed ctx
               else vl_enter impl (LossCutJudgment RecordErrorState) (recordFailure r ctx)
           | _ \<Rightarrow> (s, ctx))
      | LossCutJudgment RecordErrorState \<Rightarrow>
          (case ev of
             LCEvent ERROR_STATE_RECORDED \<Rightarrow> vl_enter impl (LossCutJudgment Check3Times) ctx
           | _ \<Rightarrow> (s, ctx))
      | IssueFix \<Rightarrow>
          (case ev of
             FIX_ISSUED \<Rightarrow>
               vl_enter impl Typecheck
                 (ctx\<lparr>currentStep := StepTypecheck, lossCutDecision := None\<rparr>)
           | _ \<Rightarrow> (s, ctx))
      | _ \<Rightarrow> (s, ctx))"

text \<open>
  The eventless transitions: the guard chain of the compound state, shared with the
  stand-alone machine, and its \<open>onDone\<close> once a final child is reached.
\<close>

definition vl_always ::
  "VLActions \<Rightarrow> int \<Rightarrow> VLState \<Rightarrow> VerificationLoopContext \<Rightarrow>
   RuntimeError + (VLState \<times> VerificationLoopContext)" where
  "vl_always impl now s ctx =
     (case s of
        LossCutJudgment l \<Rightarrow>
          if lc_transient l then
            (case lc_always now l ctx of
               Inl e \<Rightarrow> Inl e
             | Inr (l', ctx') \<Rightarrow> Inr (vl_enter impl (LossCutJudgment l') ctx'))
          else if l = ContinueFix \<or> l = LossCutConfirmed then
            (if lossCutDecision ctx = Some Continue
             then Inr (vl_enter impl IssueFix ctx)
             else Inr (vl_enter impl VerificationFailed ctx))
          else Inr (s, ctx)
      | _ \<Rightarrow> Inr (s, ctx))"

fun vl_final :: "VLState \<Rightarrow> bool" where
  "vl_final VerificationPassed = True"
| "vl_final VerificationFailed = True"
| "vl_final _ = False"

text \<open>
  The delayed transition of the root state, \<open>after: {1800000: '.lossCutJudgment'}\<close>:
  it leaves whatever state is active and enters the compound state at its initial
  child. A machine that has reached a final state has stopped and takes no transition.
\<close>

definition vl_after ::
  "VLActions \<Rightarrow> VLState \<Rightarrow> VerificationLoopContext \<Rightarrow> VLState \<times> VerificationLoopContext" where
  "vl_after impl s ctx =
     (if vl_final s then (s, ctx) else vl_enter impl (LossCutJudgment RecordErrorState) ctx)"

text \<open>
  A configuration with a virtual clock. The timer of the root state is armed when the
  actor starts (\<open>armedAt\<close>) and is pending until it fires. \<open>Date.now()\<close> reads the clock.
\<close>

record VLConfig =
  vlState :: VLState
  vlCtx :: VerificationLoopContext
  clock :: int
  armedAt :: int
  timerPending :: bool

datatype VLInput = VLEvent VerificationLoopEvent | VLTau | VLAdvance nat

definition vl_step :: "VLActions \<Rightarrow> VLInput \<Rightarrow> VLConfig \<Rightarrow> RuntimeError + VLConfig" where
  "vl_step impl inp cfg =
     (case inp of
        VLEvent ev \<Rightarrow>
          (case vl_on impl ev (vlState cfg) (vlCtx cfg) of
             (s, ctx) \<Rightarrow> Inr (cfg\<lparr>vlState := s, vlCtx := ctx\<rparr>))
      | VLTau \<Rightarrow>
          (case vl_always impl (clock cfg) (vlState cfg) (vlCtx cfg) of
             Inl e \<Rightarrow> Inl e
           | Inr (s, ctx) \<Rightarrow> Inr (cfg\<lparr>vlState := s, vlCtx := ctx\<rparr>))
      | VLAdvance d \<Rightarrow>
          (if timerPending cfg \<and> clock cfg + int d \<ge> armedAt cfg + 1800000
              \<and> \<not> vl_final (vlState cfg)
           then (case vl_after impl (vlState cfg) (vlCtx cfg) of
                   (s, ctx) \<Rightarrow>
                     Inr (cfg\<lparr>vlState := s, vlCtx := ctx, clock := clock cfg + int d,
                              timerPending := False\<rparr>))
           else Inr (cfg\<lparr>clock := clock cfg + int d\<rparr>)))"

fun vl_exec :: "(VLActions \<times> VLInput) list \<Rightarrow> VLConfig \<Rightarrow> RuntimeError + VLConfig" where
  "vl_exec [] cfg = Inr cfg"
| "vl_exec ((impl, i) # steps) cfg =
     (case vl_step impl i cfg of Inl e \<Rightarrow> Inl e | Inr cfg' \<Rightarrow> vl_exec steps cfg')"

text \<open>
  The initial context; \<open>startedAt\<close> is \<open>Date.now()\<close> at the time the machine is defined.
\<close>

definition vl_initialContext :: "int \<Rightarrow> VerificationLoopContext" where
  "vl_initialContext definedAt =
     \<lparr>errorCount = 0, startedAt = definedAt, lastError = None, errorHistory = [],
      lossCutDecision = None, currentStep = StepTypecheck,
      collaborationCheckResult = None, aiPrincipleCheckResult = None\<rparr>"

text \<open>Starting the actor at clock reading \<open>t0\<close> enters \<open>typecheck\<close> and arms the timer.\<close>

definition vl_start :: "VLActions \<Rightarrow> int \<Rightarrow> int \<Rightarrow> VLConfig" where
  "vl_start impl t0 definedAt =
     (case vl_enter impl Typecheck (vl_initialContext definedAt) of
        (s, ctx) \<Rightarrow>
          \<lparr>vlState = s, vlCtx = ctx, clock = t0, armedAt = t0, timerPending = True\<rparr>)"

definition vl_output :: "VerificationLoopContext \<Rightarrow> SP3OutputExtended" where
  "vl_output ctx =
     \<lparr>passed = (lossCutDecision ctx \<noteq> Some Cut),
      lossCut = (lossCutDecision ctx = Some Cut),
      out_lastError = lastError ctx,
      out_errorHistory = errorHistory ctx,
      principleViolation =
        (case aiPrincipleCheckResult ctx of
           None \<Rightarrow> False
         | Some r \<Rightarrow> pcr_passed r = False)\<rparr>"

text \<open>An implementation of the actions that leaves the error history alone.\<close>

definition keepsHistory :: "VLActions \<Rightarrow> bool" where
  "keepsHistory impl = (\<forall>a ctx. errorHistory (impl a ctx) = errorHistory ctx)"

definition allUnchanged :: "ErrorRecord list \<Rightarrow> bool" where
  "allUnchanged rs = list_all (\<lambda>r. complexityDelta r = Unchanged) rs"

text \<open>The check stages, whose entry runs the two principle monitors.\<close>

definition isStage :: "VLState \<Rightarrow> bool" where
  "isStage s = (s = Typecheck \<or> s = Lint \<or> s = Test)"

text \<open>
  An implementation of the actions in which only the agent-behaviour-principle monitor
  writes \<open>aiPrincipleCheckResult\<close>.
\<close>

definition keepsAiResult :: "VLActions \<Rightarrow> bool" where
  "keepsAiResult impl =
     (\<forall>a ctx. a \<noteq> ActCheckAIPrinciples \<longrightarrow>
        aiPrincipleCheckResult (impl a ctx) = aiPrincipleCheckResult ctx)"

text \<open>
  The configuration right after the most recent entry of a check stage in a run; the
  third argument is the one known so far (the start of the loop, which enters
  \<open>typecheck\<close>, is the first).
\<close>

fun afterLastEntry :: "(VLActions \<times> VLInput) list \<Rightarrow> VLConfig \<Rightarrow> VLConfig \<Rightarrow> VLConfig" where
  "afterLastEntry [] cfg e = e"
| "afterLastEntry ((impl, i) # steps) cfg e =
     (case vl_step impl i cfg of
        Inl err \<Rightarrow> e
      | Inr cfg' \<Rightarrow>
          afterLastEntry steps cfg'
            (if vlState cfg' \<noteq> vlState cfg \<and> isStage (vlState cfg') then cfg' else e))"

section \<open>The orchestrator (mainFlowMachine)\<close>

record LevelResult =
  lr_passed :: bool
  issues :: "string list"

record EvaluationResults =
  l0 :: "LevelResult option"
  l1 :: "LevelResult option"
  l2 :: "LevelResult option"
  l3 :: "LevelResult option"

record L0L3CheckOutput =
  sp1_result :: EvaluationResults
  allPassed :: bool

datatype TaskCharacteristic =
    InitialDraft | StyleUnification | GapDetection | DesignDecision | DomainSpecific
  | UnknownCharacteristic

datatype DivisionResult = AiLed | HumanLed

datatype PromptTechnique =
  ZeroShot | ChainOfThought | TreeOfThoughts | React | SelfConsistency

record SP2Output =
  sp2_result :: DivisionResult
  promptTechnique :: "PromptTechnique option"
  taskCharacteristic :: TaskCharacteristic

datatype BrightLineViolation =
  BL1_humanJudgment | BL2_preDeployCheck | BL3_humanReview | BL4_independentVerify

record BrightLinesResult =
  hasViolation :: bool
  violations :: "BrightLineViolation list"

text \<open>
  \<open>output\<close> and \<open>isAiGenerated\<close> are optional here because \<open>HUMAN_REVIEW_DONE\<close> builds
  the result by spreading \<open>context.executionResult!\<close>: spreading \<open>null\<close> yields an object
  with \<open>humanReviewed\<close> only.
\<close>

record ExecutionResult =
  er_output :: "string option"
  isAiGenerated :: "bool option"
  humanReviewed :: bool

datatype Sp1Verdict = AllPass | Failed

record Sp1Result =
  sp1_verdict :: Sp1Verdict
  failedLevel :: "int option"
  evaluatedLevels :: int

record MainFlowContext =
  taskDescription :: string
  brightLinesResult :: BrightLinesResult
  sp1Result :: "Sp1Result option"
  adjustmentCount :: int
  sp2Result :: "SP2Output option"
  executionResult :: "ExecutionResult option"
  sp3Result :: "SP3OutputExtended option"
  mf_lastError :: "ErrorInfo option"
  mf_errorHistory :: "ErrorRecord list"
  recoveryResult :: "RecoveryFlowOutput option"
  hasPrincipleViolation :: bool

datatype MainFlowEvent =
    START | CHECK_BRIGHT_LINES | BRIGHT_LINES_PASS
  | BRIGHT_LINES_FAIL "BrightLineViolation list" | BRIGHT_LINES_FIXED
  | SP1_PASS | SP1_FAIL int | ADJUSTMENT_DONE
  | SP2_AI_LED PromptTechnique TaskCharacteristic | SP2_HUMAN_LED
  | EXECUTE_HUMAN string | EXECUTE_AI string | HUMAN_REVIEW_DONE bool
  | SP3_PASS | SP3_LOSSCUT | SP3_PRINCIPLE_VIOLATION | RECOVERY_DONE

text \<open>
  What the machine receives: an event sent from outside, or the completion of one of
  the invoked sub-machines with its output.
\<close>

datatype MFInput =
    MFEvent MainFlowEvent
  | Sp1Done L0L3CheckOutput | Sp2Done SP2Output | Sp3Done SP3OutputExtended
  | RfDone RecoveryFlowOutput

datatype MFState =
    BrightLinesCheck | BrightLinesFix | Sp1Check | TaskAdjustment | Sp2Division
  | HumanExecution | AiExecution | HumanReview | Sp3Verification | RecoveryFlow
  | TaskCompleted | RecoveryExit

definition createMainFlowContext :: "string \<Rightarrow> MainFlowContext" where
  "createMainFlowContext td =
     \<lparr>taskDescription = td,
      brightLinesResult = \<lparr>hasViolation = False, violations = []\<rparr>,
      sp1Result = None, adjustmentCount = 0, sp2Result = None, executionResult = None,
      sp3Result = None, mf_lastError = None, mf_errorHistory = [], recoveryResult = None,
      hasPrincipleViolation = False\<rparr>"

text \<open>
  The transitions. The entry actions of the orchestrator (\<open>fixBrightLines\<close>,
  \<open>adjustTask\<close>, \<open>executeHuman\<close>, \<open>executeAi\<close>, \<open>reviewAiOutput\<close>) do nothing. The
  branches of each \<open>onDone\<close> are tried in the order in which the source lists them.
\<close>

definition mf_step :: "MFInput \<Rightarrow> MFState \<times> MainFlowContext \<Rightarrow> MFState \<times> MainFlowContext" where
  "mf_step inp cfg =
     (case cfg of (s, ctx) \<Rightarrow>
       (case s of
          BrightLinesCheck \<Rightarrow>
            (case inp of
               MFEvent BRIGHT_LINES_PASS \<Rightarrow> (Sp1Check, ctx)
             | MFEvent (BRIGHT_LINES_FAIL vs) \<Rightarrow>
                 (BrightLinesFix,
                  ctx\<lparr>brightLinesResult := \<lparr>hasViolation = True, violations = vs\<rparr>\<rparr>)
             | _ \<Rightarrow> (s, ctx))
        | BrightLinesFix \<Rightarrow>
            (case inp of
               MFEvent BRIGHT_LINES_FIXED \<Rightarrow>
                 (BrightLinesCheck,
                  ctx\<lparr>brightLinesResult := \<lparr>hasViolation = False, violations = []\<rparr>\<rparr>)
             | _ \<Rightarrow> (s, ctx))
        | Sp1Check \<Rightarrow>
            (case inp of
               Sp1Done out \<Rightarrow>
                 if allPassed out
                 then (Sp2Division,
                       ctx\<lparr>sp1Result := Some \<lparr>sp1_verdict = AllPass, failedLevel = None,
                                               evaluatedLevels = 4\<rparr>\<rparr>)
                 else (TaskAdjustment,
                       ctx\<lparr>sp1Result := Some \<lparr>sp1_verdict = Failed, failedLevel = None,
                                               evaluatedLevels = 4\<rparr>\<rparr>)
             | _ \<Rightarrow> (s, ctx))
        | TaskAdjustment \<Rightarrow>
            (case inp of
               MFEvent ADJUSTMENT_DONE \<Rightarrow>
                 (Sp1Check,
                  ctx\<lparr>adjustmentCount := adjustmentCount ctx + 1, sp1Result := None\<rparr>)
             | _ \<Rightarrow> (s, ctx))
        | Sp2Division \<Rightarrow>
            (case inp of
               Sp2Done out \<Rightarrow>
                 if sp2_result out = AiLed
                 then (AiExecution, ctx\<lparr>sp2Result := Some out\<rparr>)
                 else (HumanExecution, ctx\<lparr>sp2Result := Some out\<rparr>)
             | _ \<Rightarrow> (s, ctx))
        | HumanExecution \<Rightarrow>
            (case inp of
               MFEvent (EXECUTE_HUMAN output) \<Rightarrow>
                 (Sp3Verification,
                  ctx\<lparr>executionResult :=
                        Some \<lparr>er_output = Some output, isAiGenerated = Some False,
                              humanReviewed = True\<rparr>\<rparr>)
             | _ \<Rightarrow> (s, ctx))
        | AiExecution \<Rightarrow>
            (case inp of
               MFEvent (EXECUTE_AI output) \<Rightarrow>
                 (HumanReview,
                  ctx\<lparr>executionResult :=
                        Some \<lparr>er_output = Some output, isAiGenerated = Some True,
                              humanReviewed = False\<rparr>\<rparr>)
             | _ \<Rightarrow> (s, ctx))
        | HumanReview \<Rightarrow>
            (case inp of
               MFEvent (HUMAN_REVIEW_DONE approved) \<Rightarrow>
                 (Sp3Verification,
                  ctx\<lparr>executionResult :=
                        Some (case executionResult ctx of
                                Some r \<Rightarrow> r\<lparr>humanReviewed := approved\<rparr>
                              | None \<Rightarrow> \<lparr>er_output = None, isAiGenerated = None,
                                          humanReviewed = approved\<rparr>)\<rparr>)
             | _ \<Rightarrow> (s, ctx))
        | Sp3Verification \<Rightarrow>
            (case inp of
               Sp3Done out \<Rightarrow>
                 if passed out
                 then (TaskCompleted, ctx\<lparr>sp3Result := Some out\<rparr>)
                 else if principleViolation out
                 then (BrightLinesCheck,
                       ctx\<lparr>sp3Result := Some out, hasPrincipleViolation := True\<rparr>)
                 else (RecoveryFlow,
                       ctx\<lparr>sp3Result := Some out, mf_lastError := out_lastError out,
                           mf_errorHistory := out_errorHistory out\<rparr>)
             | _ \<Rightarrow> (s, ctx))
        | RecoveryFlow \<Rightarrow>
            (case inp of
               RfDone out \<Rightarrow> (RecoveryExit, ctx\<lparr>recoveryResult := Some out\<rparr>)
             | _ \<Rightarrow> (s, ctx))
        | _ \<Rightarrow> (s, ctx)))"

text \<open>The machine's context is always created with the empty task description.\<close>

definition mf_start :: "MFState \<times> MainFlowContext" where
  "mf_start = (BrightLinesCheck, createMainFlowContext [])"

fun mf_exec :: "MFInput list \<Rightarrow> MFState \<times> MainFlowContext \<Rightarrow> MFState \<times> MainFlowContext" where
  "mf_exec [] cfg = cfg"
| "mf_exec (i # ins) cfg = mf_exec ins (mf_step i cfg)"

datatype CompletionType = CT_taskCompleted | CT_recoveryExit

record MainFlowOutput =
  completionType :: CompletionType
  out_executionResult :: "ExecutionResult option"
  out_recoveryResult :: "RecoveryFlowOutput option"

definition mf_output :: "MainFlowContext \<Rightarrow> MainFlowOutput" where
  "mf_output ctx =
     \<lparr>completionType = (if recoveryResult ctx \<noteq> None then CT_recoveryExit else CT_taskCompleted),
      out_executionResult = executionResult ctx,
      out_recoveryResult = recoveryResult ctx\<rparr>"

text \<open>
  Some step of the run delivers \<open>HUMAN_REVIEW_DONE\<close> while the machine is in
  \<open>humanReview\<close>, the only state that handles it.
\<close>

fun isReviewDone :: "MFInput \<Rightarrow> bool" where
  "isReviewDone (MFEvent (HUMAN_REVIEW_DONE approved)) = True"
| "isReviewDone _ = False"

fun reviewAccepted :: "MFInput list \<Rightarrow> MFState \<times> MainFlowContext \<Rightarrow> bool" where
  "reviewAccepted [] cfg = False"
| "reviewAccepted (i # ins) cfg =
     ((fst cfg = HumanReview \<and> isReviewDone i) \<or> reviewAccepted ins (mf_step i cfg))"

definition aiGenerated :: "MainFlowContext \<Rightarrow> bool" where
  "aiGenerated ctx =
     (case executionResult ctx of None \<Rightarrow> False | Some r \<Rightarrow> isAiGenerated r = Some True)"

text \<open>
  The verdict on the current AI draft, followed along a run: \<open>EXECUTE_AI\<close> accepted in
  \<open>aiExecution\<close> produces a new draft without a verdict, \<open>HUMAN_REVIEW_DONE\<close> accepted
  in \<open>humanReview\<close> gives the draft its verdict.
\<close>

definition draftVerdict :: "bool option \<Rightarrow> MFState \<Rightarrow> MFInput \<Rightarrow> bool option" where
  "draftVerdict v s i =
     (case i of
        MFEvent (EXECUTE_AI output) \<Rightarrow> if s = AiExecution then None else v
      | MFEvent (HUMAN_REVIEW_DONE approved) \<Rightarrow> if s = HumanReview then Some approved else v
      | _ \<Rightarrow> v)"

fun currentVerdict ::
  "bool option \<Rightarrow> MFInput list \<Rightarrow> MFState \<times> MainFlowContext \<Rightarrow> bool option" where
  "currentVerdict v [] cfg = v"
| "currentVerdict v (i # ins) cfg =
     currentVerdict (draftVerdict v (fst cfg) i) ins (mf_step i cfg)"

section \<open>Concrete contexts used to exercise the judgment\<close>

definition errLintA :: ErrorInfo where
  "errLintA = \<lparr>step = StepLint, message = ''unused variable'', timestamp = 10\<rparr>"

definition errLintB :: ErrorInfo where
  "errLintB = \<lparr>step = StepLint, message = ''unused variable'', timestamp = 20\<rparr>"

definition ctxFresh :: LossCutContext where
  "ctxFresh = \<lparr>errorCount = 0, startedAt = 0, lastError = None, errorHistory = [],
               lossCutDecision = None\<rparr>"

definition ctxFirstFailure :: LossCutContext where
  "ctxFirstFailure =
     \<lparr>errorCount = 1, startedAt = 0, lastError = Some errLintA,
      errorHistory = [\<lparr>error = Some errLintA, fixAttempt = [], complexityDelta = Unchanged\<rparr>],
      lossCutDecision = None\<rparr>"

definition ctxRecurring :: LossCutContext where
  "ctxRecurring =
     \<lparr>errorCount = 2, startedAt = 0, lastError = Some errLintB,
      errorHistory =
        [\<lparr>error = Some errLintA, fixAttempt = [], complexityDelta = Unchanged\<rparr>,
         \<lparr>error = Some errLintB, fixAttempt = [], complexityDelta = Unchanged\<rparr>],
      lossCutDecision = None\<rparr>"

definition ctxAllConditions :: LossCutContext where
  "ctxAllConditions =
     \<lparr>errorCount = 5, startedAt = 0, lastError = Some errLintB,
      errorHistory =
        [\<lparr>error = None, fixAttempt = [], complexityDelta = Unchanged\<rparr>,
         \<lparr>error = Some errLintA, fixAttempt = [], complexityDelta = Unchanged\<rparr>,
         \<lparr>error = Some errLintB, fixAttempt = [], complexityDelta = Increased\<rparr>],
      lossCutDecision = None\<rparr>"

section \<open>Concrete runs of the recovery flow\<close>

definition analysisPlain :: ProblemAnalysis where
  "analysisPlain =
     \<lparr>verbalization = ''build fails'', causeAnalysis = ''stale cache'',
      essenceIdentification = ''cache key'', hasSecurityIssue = False,
      hasProductionImpact = False, hasDataLossRisk = False, retreatCount = 0,
      isUnknownCause = False, isOutOfSkillScope = False\<rparr>"

definition rf_ctxWith :: "ProblemAnalysis \<Rightarrow> RecoveryFlowContext" where
  "rf_ctxWith a = rf_initialContext\<lparr>analysisResult := Some a\<rparr>"

text \<open>
  Injected actions as the tests provide them: \<open>selectApproach\<close> assigns the approach,
  \<open>documentWorkaround\<close> may set the share flag.
\<close>

definition rf_selecting :: "Approach \<Rightarrow> bool \<Rightarrow> RFActions" where
  "rf_selecting ap share a ctx =
     (if a = ActSelectApproach then ctx\<lparr>selectedApproach := Some ap\<rparr>
      else if a = ActDocumentWorkaround \<and> share then ctx\<lparr>shouldShareWithTeam := True\<rparr>
      else ctx)"

definition rf_analysed :: "RFActions \<Rightarrow> ProblemAnalysis \<Rightarrow> (RFActions \<times> RFInput) list" where
  "rf_analysed impl a =
     [(impl, RFEvent PROBLEM_VERBALIZED), (impl, RFEvent CAUSE_ANALYZED),
      (impl, RFEvent (ESSENCE_IDENTIFIED a)), (impl, RFTau), (impl, RFTau)]"

definition rf_recorded :: "RFActions \<Rightarrow> (RFActions \<times> RFInput) list" where
  "rf_recorded impl =
     [(impl, RFEvent CLAUDE_MD_RECORDED), (impl, RFEvent WORKAROUND_DOCUMENTED),
      (impl, RFTau)]"

definition rf_stepsA :: "(RFActions \<times> RFInput) list" where
  "rf_stepsA =
     rf_analysed (rf_selecting ApproachA False) analysisPlain
     @ [(rf_selecting ApproachA False, RFEvent HUMAN_FIX_COMPLETE),
        (rf_selecting ApproachA False, RFEvent AI_EXPLANATION_RECEIVED)]
     @ rf_recorded (rf_selecting ApproachA False)"

definition rf_stepsB :: "(RFActions \<times> RFInput) list" where
  "rf_stepsB =
     rf_analysed (rf_selecting ApproachB False) analysisPlain
     @ [(rf_selecting ApproachB False, RFEvent REDECOMPOSE_COMPLETE)]
     @ rf_recorded (rf_selecting ApproachB False)"

definition rf_stepsC :: "(RFActions \<times> RFInput) list" where
  "rf_stepsC =
     rf_analysed (rf_selecting ApproachC True) analysisPlain
     @ [(rf_selecting ApproachC True, RFEvent CONTEXT_RESET_COMPLETE)]
     @ rf_recorded (rf_selecting ApproachC True)
     @ [(rf_selecting ApproachC True, RFEvent TEAM_SHARED)]"

definition rf_stepsD :: "(RFActions \<times> RFInput) list" where
  "rf_stepsD =
     rf_analysed rf_noActions (analysisPlain\<lparr>retreatCount := 3\<rparr>)
     @ [(rf_noActions, RFTau), (rf_noActions, RFTau),
        (rf_noActions, RFEvent ESCALATION_DECIDED), (rf_noActions, RFTau),
        (rf_noActions, RFEvent TEAM_CONSULTED)]
     @ rf_recorded rf_noActions"

text \<open>The position of a state relative to the recording step.\<close>

fun rf_phase :: "RFState \<Rightarrow> nat" where
  "rf_phase RecordToClaudeMd = 1"
| "rf_phase DocumentWorkaround = 2"
| "rf_phase TeamShareDecision = 3"
| "rf_phase ShareWithTeam = 3"
| "rf_phase RecoveryComplete = 4"
| "rf_phase _ = 0"

section \<open>Concrete runs of the verification loop and of the orchestrator\<close>

definition checkOk :: CheckResult where
  "checkOk = \<lparr>cr_passed = True, cr_error = None\<rparr>"

definition checkFailed :: "ErrorInfo \<Rightarrow> CheckResult" where
  "checkFailed e = \<lparr>cr_passed = False, cr_error = Some e\<rparr>"

text \<open>Injected monitors that report a violation into their field of the context.\<close>

definition vl_aiViolation :: VLActions where
  "vl_aiViolation a ctx =
     (if a = ActCheckAIPrinciples
      then ctx\<lparr>aiPrincipleCheckResult :=
                 Some \<lparr>pcr_passed = False, pcr_violations = [''A4'']\<rparr>\<rparr>
      else ctx)"

definition vl_collaborationViolation :: VLActions where
  "vl_collaborationViolation a ctx =
     (if a = ActCheckCollaborationPrinciples
      then ctx\<lparr>collaborationCheckResult :=
                 Some \<lparr>pcr_passed = False, pcr_violations = [''C1'']\<rparr>\<rparr>
      else ctx)"

definition vl_allPass :: "VLActions \<Rightarrow> (VLActions \<times> VLInput) list" where
  "vl_allPass impl =
     [(impl, VLEvent (TYPECHECK_COMPLETE checkOk)), (impl, VLEvent (LINT_COMPLETE checkOk)),
      (impl, VLEvent (TEST_COMPLETE checkOk))]"

text \<open>One failure, judged as continue, fixed, and the loop back at \<open>typecheck\<close>.\<close>

definition vl_failThenFix :: "(VLActions \<times> VLInput) list" where
  "vl_failThenFix =
     [(vl_noActions, VLAdvance 600000),
      (vl_noActions, VLEvent (TYPECHECK_COMPLETE (checkFailed errLintA))),
      (vl_noActions, VLEvent (LCEvent ERROR_STATE_RECORDED)),
      (vl_noActions, VLTau), (vl_noActions, VLTau), (vl_noActions, VLTau),
      (vl_noActions, VLTau), (vl_noActions, VLTau),
      (vl_noActions, VLAdvance 400000),
      (vl_noActions, VLEvent FIX_ISSUED)]"

definition vl_cfgAfterFix :: VLConfig where
  "vl_cfgAfterFix =
     \<lparr>vlState = Typecheck,
      vlCtx = \<lparr>errorCount = 1, startedAt = 0, lastError = Some errLintA,
               errorHistory =
                 [\<lparr>error = Some errLintA, fixAttempt = [], complexityDelta = Unchanged\<rparr>],
               lossCutDecision = None, currentStep = StepTypecheck,
               collaborationCheckResult = None, aiPrincipleCheckResult = None\<rparr>,
      clock = 1000000, armedAt = 0, timerPending = True\<rparr>"

definition sp3PassedWithViolation :: SP3OutputExtended where
  "sp3PassedWithViolation =
     \<lparr>passed = True, lossCut = False, out_lastError = None, out_errorHistory = [],
      principleViolation = True\<rparr>"

definition sp1AllPassed :: L0L3CheckOutput where
  "sp1AllPassed =
     \<lparr>sp1_result = \<lparr>l0 = None, l1 = None, l2 = None, l3 = None\<rparr>, allPassed = True\<rparr>"

definition sp2HumanLed :: SP2Output where
  "sp2HumanLed =
     \<lparr>sp2_result = HumanLed, promptTechnique = None,
      taskCharacteristic = UnknownCharacteristic\<rparr>"

definition sp2AiLed :: SP2Output where
  "sp2AiLed =
     \<lparr>sp2_result = AiLed, promptTechnique = Some ZeroShot,
      taskCharacteristic = InitialDraft\<rparr>"

definition sp3Passed :: SP3OutputExtended where
  "sp3Passed =
     \<lparr>passed = True, lossCut = False, out_lastError = None, out_errorHistory = [],
      principleViolation = False\<rparr>"

definition mf_toSp3Human :: "MFInput list" where
  "mf_toSp3Human =
     [MFEvent BRIGHT_LINES_PASS, Sp1Done sp1AllPassed, Sp2Done sp2HumanLed,
      MFEvent (EXECUTE_HUMAN ''patch'')]"

definition vl_cfgCollaboration :: VLConfig where
  "vl_cfgCollaboration =
     \<lparr>vlState = VerificationPassed,
      vlCtx = \<lparr>errorCount = 0, startedAt = 0, lastError = None, errorHistory = [],
               lossCutDecision = None, currentStep = StepTypecheck,
               collaborationCheckResult =
                 Some \<lparr>pcr_passed = False, pcr_violations = [''C1'']\<rparr>,
               aiPrincipleCheckResult = None\<rparr>,
      clock = 0, armedAt = 0, timerPending = True\<rparr>"

definition vl_cfgAiViolation :: VLConfig where
  "vl_cfgAiViolation =
     \<lparr>vlState = VerificationPassed,
      vlCtx = \<lparr>errorCount = 0, startedAt = 0, lastError = None, errorHistory = [],
               lossCutDecision = None, currentStep = StepTypecheck,
               collaborationCheckResult = None,
               aiPrincipleCheckResult =
                 Some \<lparr>pcr_passed = False, pcr_violations = [''A4'']\<rparr>\<rparr>,
      clock = 0, armedAt = 0, timerPending = True\<rparr>"

text \<open>An injected agent-behaviour monitor that reports no violation.\<close>

definition vl_aiPass :: VLActions where
  "vl_aiPass a ctx =
     (if a = ActCheckAIPrinciples
      then ctx\<lparr>aiPrincipleCheckResult := Some \<lparr>pcr_passed = True, pcr_violations = []\<rparr>\<rparr>
      else ctx)"

definition vl_cfgOverwritten :: VLConfig where
  "vl_cfgOverwritten =
     \<lparr>vlState = VerificationPassed,
      vlCtx = \<lparr>errorCount = 0, startedAt = 0, lastError = None, errorHistory = [],
               lossCutDecision = None, currentStep = StepTypecheck,
               collaborationCheckResult = None,
               aiPrincipleCheckResult = Some \<lparr>pcr_passed = True, pcr_violations = []\<rparr>\<rparr>,
      clock = 0, armedAt = 0, timerPending = True\<rparr>"

definition sp3Violation :: SP3OutputExtended where
  "sp3Violation =
     \<lparr>passed = False, lossCut = True, out_lastError = None, out_errorHistory = [],
      principleViolation = True\<rparr>"

text \<open>
  Two AI drafts: the first is approved and sent back by a principle violation, the
  second is rejected in review and passes verification.
\<close>

definition mf_twoDrafts :: "MFInput list" where
  "mf_twoDrafts =
     [MFEvent BRIGHT_LINES_PASS, Sp1Done sp1AllPassed, Sp2Done sp2AiLed,
      MFEvent (EXECUTE_AI ''draft 1''), MFEvent (HUMAN_REVIEW_DONE True),
      Sp3Done sp3Violation,
      MFEvent BRIGHT_LINES_PASS, Sp1Done sp1AllPassed, Sp2Done sp2AiLed,
      MFEvent (EXECUTE_AI ''draft 2''), MFEvent (HUMAN_REVIEW_DONE False),
      Sp3Done sp3Passed]"

definition vl_cfgLint :: VLConfig where
  "vl_cfgLint =
     \<lparr>vlState = Lint,
      vlCtx = \<lparr>errorCount = 0, startedAt = 0, lastError = None, errorHistory = [],
               lossCutDecision = None, currentStep = StepTypecheck,
               collaborationCheckResult = None,
               aiPrincipleCheckResult = Some \<lparr>pcr_passed = True, pcr_violations = []\<rparr>\<rparr>,
      clock = 0, armedAt = 0, timerPending = True\<rparr>"

section \<open>Properties of the loss-cut judgment\<close>

lemma someSameError_wellTyped:
  "list_all (\<lambda>r. error r \<noteq> None) rs \<Longrightarrow>
   someSameError current rs =
     Inr (list_ex (\<lambda>r. case error r of None \<Rightarrow> False
                        | Some e \<Rightarrow> step e = step current \<and> message e = message current) rs)"
  by (induction rs) (auto split: option.splits)

lemma list_all_butlast: "list_all P xs \<Longrightarrow> list_all P (butlast xs)"
  by (auto simp: list_all_iff dest: in_set_butlastD)

lemma checkRecurringError_wellTyped:
  "wellTyped ctx \<Longrightarrow> checkRecurringError ctx = Inr (recursEarlier ctx)"
  by (auto simp: wellTyped_def checkRecurringError_def recursEarlier_def
        someSameError_wellTyped list_all_butlast split: option.splits)

lemma lc_settle_final:
  "\<not> lc_transient s \<Longrightarrow> lc_settle now s ctx = Inr ([s], ctx)"
  by (simp add: lc_settle.simps)


lemma lc_settle_unfold:
  "lc_transient s \<Longrightarrow>
   lc_settle now s ctx =
     (case lc_always now s ctx of
        Inl e \<Rightarrow> Inl e
      | Inr (s', ctx') \<Rightarrow>
          (case lc_settle now s' ctx' of Inl e \<Rightarrow> Inl e | Inr (p, c) \<Rightarrow> Inr (s # p, c)))"
  by (subst lc_settle.simps) simp

lemma lc_settle_CheckRecurrence:
  "wellTyped ctx \<Longrightarrow>
   lc_settle now CheckRecurrence ctx =
     Inr (if recursEarlier ctx
          then ([CheckRecurrence, LossCutConfirmed], ctx\<lparr>lossCutDecision := Some Cut\<rparr>)
          else ([CheckRecurrence, ContinueFix], ctx\<lparr>lossCutDecision := Some Continue\<rparr>))"
  by (simp add: lc_settle_unfold lc_settle_final checkRecurringError_wellTyped)

lemma lc_settle_CheckComplexity:
  "wellTyped ctx \<Longrightarrow>
   lc_settle now CheckComplexity ctx =
     Inr (if checkGrowingComplexity ctx
          then ([CheckComplexity, LossCutConfirmed], ctx\<lparr>lossCutDecision := Some Cut\<rparr>)
          else if recursEarlier ctx
          then ([CheckComplexity, CheckRecurrence, LossCutConfirmed],
                ctx\<lparr>lossCutDecision := Some Cut\<rparr>)
          else ([CheckComplexity, CheckRecurrence, ContinueFix],
                ctx\<lparr>lossCutDecision := Some Continue\<rparr>))"
  by (simp add: lc_settle_unfold [of CheckComplexity] lc_settle_final lc_settle_CheckRecurrence)

lemma lc_settle_Check30Min:
  "wellTyped ctx \<Longrightarrow>
   lc_settle now Check30Min ctx =
     Inr (if checkOver30Min now ctx
          then ([Check30Min, LossCutConfirmed], ctx\<lparr>lossCutDecision := Some Cut\<rparr>)
          else if checkGrowingComplexity ctx
          then ([Check30Min, CheckComplexity, LossCutConfirmed],
                ctx\<lparr>lossCutDecision := Some Cut\<rparr>)
          else if recursEarlier ctx
          then ([Check30Min, CheckComplexity, CheckRecurrence, LossCutConfirmed],
                ctx\<lparr>lossCutDecision := Some Cut\<rparr>)
          else ([Check30Min, CheckComplexity, CheckRecurrence, ContinueFix],
                ctx\<lparr>lossCutDecision := Some Continue\<rparr>))"
  by (simp add: lc_settle_unfold [of Check30Min] lc_settle_final lc_settle_CheckComplexity)

lemma lc_settle_Check3Times_cut:
  "checkErrorCount3OrMore ctx \<Longrightarrow>
   lc_settle now Check3Times ctx =
     Inr ([Check3Times, LossCutConfirmed], ctx\<lparr>lossCutDecision := Some Cut\<rparr>)"
  by (simp add: lc_settle_unfold [of Check3Times] lc_settle_final)

lemma lc_settle_Check3Times_pass:
  "\<not> checkErrorCount3OrMore ctx \<Longrightarrow>
   lc_settle now Check3Times ctx =
     (case lc_settle now Check30Min ctx of
        Inl e \<Rightarrow> Inl e
      | Inr (p, c) \<Rightarrow> Inr (Check3Times # p, c))"
  by (simp add: lc_settle_unfold [of Check3Times])

lemma lc_judge_closed:
  "wellTyped ctx \<Longrightarrow>
   lc_judge now ctx =
     Inr (if checkErrorCount3OrMore ctx \<or> checkOver30Min now ctx
             \<or> checkGrowingComplexity ctx \<or> recursEarlier ctx
          then Cut else Continue)"
  by (cases "checkErrorCount3OrMore ctx")
     (simp_all add: lc_judge_def lc_send_def lc_settle_Check3Times_cut
        lc_settle_Check3Times_pass lc_settle_Check30Min lc_output_def)

text \<open>
  C2: on a context whose history records are well typed (in particular one whose current
  failure is the last entry of the history), the judgment returns cut exactly when
  the failure count is at least 3, or 30 minutes have passed since the loop started, or
  the most recent record's complexity trend is increased, or the current failure's
  (stage, message) pair equals that of an entry of the history other than the last one;
  otherwise it returns continue.
\<close>

theorem lossCut_iff_any_condition:
  assumes "wellTyped ctx"
  shows "lc_judge now ctx =
           Inr (if errorCount ctx \<ge> 3
                   \<or> now - startedAt ctx \<ge> 1800000
                   \<or> (errorHistory ctx \<noteq> []
                        \<and> complexityDelta (last (errorHistory ctx)) = Increased)
                   \<or> recursEarlier ctx
                then Cut else Continue)"
  using lc_judge_closed [OF assms, of now]
  by (simp add: checkErrorCount3OrMore_def checkOver30Min_def checkGrowingComplexity_def
        split: list.splits)

theorem lossCut_iff_any_condition_witness:
  "wellTyped ctxRecurring \<and> lc_judge 1000 ctxRecurring = Inr Cut
   \<and> wellTyped ctxFirstFailure \<and> lc_judge 1000 ctxFirstFailure = Inr Continue"
proof -
  have w1: "wellTyped ctxRecurring"
    by (simp add: wellTyped_def ctxRecurring_def errLintA_def errLintB_def)
  have w2: "wellTyped ctxFirstFailure"
    by (simp add: wellTyped_def ctxFirstFailure_def errLintA_def)
  have r1: "lc_judge 1000 ctxRecurring = Inr Cut"
    using lossCut_iff_any_condition [OF w1, of 1000]
    by (simp add: ctxRecurring_def recursEarlier_def errLintA_def errLintB_def)
  have r2: "lc_judge 1000 ctxFirstFailure = Inr Continue"
    using lossCut_iff_any_condition [OF w2, of 1000]
    by (simp add: ctxFirstFailure_def recursEarlier_def errLintA_def)
  from w1 w2 r1 r2 show ?thesis by simp
qed

text \<open>
  C3: with a failure count of at least 3 the run decides cut in \<open>check3Times\<close>: the
  states entered are \<open>recordErrorState\<close>, \<open>check3Times\<close> and \<open>lossCutConfirmed\<close>
  and no others, so \<open>check30Min\<close>, \<open>checkComplexity\<close> and \<open>checkRecurrence\<close> are never
  entered and their guards are never evaluated, whatever the other fields hold.
\<close>

theorem lossCut_short_circuit:
  assumes "errorCount ctx \<ge> 3"
  shows "lc_send now ERROR_STATE_RECORDED ctx =
           Inr ([RecordErrorState, Check3Times, LossCutConfirmed],
                ctx\<lparr>lossCutDecision := Some Cut\<rparr>)
         \<and> lc_judge now ctx = Inr Cut"
  using assms
  by (simp add: lc_judge_def lc_send_def lc_settle_Check3Times_cut lc_output_def
        checkErrorCount3OrMore_def)

theorem lossCut_short_circuit_witness:
  "errorCount ctxAllConditions \<ge> 3
   \<and> lc_send 1860000 ERROR_STATE_RECORDED ctxAllConditions =
       Inr ([RecordErrorState, Check3Times, LossCutConfirmed],
            ctxAllConditions\<lparr>lossCutDecision := Some Cut\<rparr>)
   \<and> lc_judge 1860000 ctxAllConditions = Inr Cut"
proof -
  have h: "errorCount ctxAllConditions \<ge> 3"
    by (simp add: ctxAllConditions_def)
  from lossCut_short_circuit [OF h, of 1860000] h show ?thesis by simp
qed

text \<open>
  C9, as stated, fails: the judgment reads the clock (\<open>Date.now()\<close> in
  \<open>checkOver30Min\<close>), so the same context gives continue at one time and cut at another.
\<close>

theorem lossCut_depends_on_clock:
  "lc_judge 0 ctxFresh = Inr Continue \<and> lc_judge 1800000 ctxFresh = Inr Cut"
  by (simp add: lc_judge_def lc_send_def lc_settle_unfold lc_settle_final lc_output_def
        ctxFresh_def checkErrorCount3OrMore_def checkOver30Min_def checkGrowingComplexity_def
        checkRecurringError_def)

text \<open>
  C9, amended: the judgment is a total, deterministic function of the context together
  with the clock reading. On every context with well-typed history records and at every
  clock reading it ends with exactly one of the two decisions, and two contexts that
  agree on the failure count, the loop start, the last failure and the history give the
  same decision at the same clock reading.
\<close>

theorem lossCut_total_deterministic:
  assumes "wellTyped ctx"
  shows "(lc_judge now ctx = Inr Continue \<or> lc_judge now ctx = Inr Cut)
         \<and> (\<forall>ctx' :: 'b LossCutContext_scheme.
               errorCount ctx' = errorCount ctx \<and> startedAt ctx' = startedAt ctx
               \<and> lastError ctx' = lastError ctx \<and> errorHistory ctx' = errorHistory ctx
               \<longrightarrow> lc_judge now ctx' = lc_judge now ctx)"
proof -
  have same: "lc_judge now ctx' = lc_judge now ctx"
    if "errorCount ctx' = errorCount ctx" "startedAt ctx' = startedAt ctx"
       "lastError ctx' = lastError ctx" "errorHistory ctx' = errorHistory ctx"
    for ctx' :: "'b LossCutContext_scheme"
  proof -
    from that assms have "wellTyped ctx'" by (simp add: wellTyped_def)
    with that assms show ?thesis
      by (simp add: lc_judge_closed checkErrorCount3OrMore_def checkOver30Min_def
            checkGrowingComplexity_def recursEarlier_def
            cong: list.case_cong option.case_cong)
  qed
  from assms have "lc_judge now ctx = Inr Continue \<or> lc_judge now ctx = Inr Cut"
    by (simp add: lc_judge_closed)
  with same show ?thesis by blast
qed

theorem lossCut_total_deterministic_witness:
  "wellTyped ctxFirstFailure
   \<and> lc_judge 1000 ctxFirstFailure = Inr Continue
   \<and> lc_judge 1000 (ctxFirstFailure\<lparr>lossCutDecision := Some Cut\<rparr>)
       = lc_judge 1000 ctxFirstFailure"
proof -
  have w: "wellTyped ctxFirstFailure"
    by (simp add: wellTyped_def ctxFirstFailure_def errLintA_def)
  have c: "lc_judge 1000 ctxFirstFailure = Inr Continue"
    using lc_judge_closed [OF w, of 1000]
    by (simp add: ctxFirstFailure_def errLintA_def checkErrorCount3OrMore_def
          checkOver30Min_def checkGrowingComplexity_def recursEarlier_def)
  from lossCut_total_deterministic [OF w, of 1000] have
    "errorCount ctx' = errorCount ctxFirstFailure \<and> startedAt ctx' = startedAt ctxFirstFailure
     \<and> lastError ctx' = lastError ctxFirstFailure
     \<and> errorHistory ctx' = errorHistory ctxFirstFailure
     \<longrightarrow> lc_judge 1000 ctx' = lc_judge 1000 ctxFirstFailure"
    for ctx' :: LossCutContext
    by blast
  from this [of "ctxFirstFailure\<lparr>lossCutDecision := Some Cut\<rparr>"] w c
  show ?thesis by simp
qed

section \<open>Properties of the recovery flow and the escalation judgment\<close>

lemma rf_step_phase0:
  "rf_phase (fst cfg) = 0 \<Longrightarrow>
   rf_phase (fst (rf_step impl i cfg)) = 0 \<or> fst (rf_step impl i cfg) = RecordToClaudeMd"
proof (cases cfg)
  case (Pair s ctx)
  assume "rf_phase (fst cfg) = 0"
  with Pair have p: "rf_phase s = 0" by simp
  show ?thesis
  proof (cases i)
    case RFTau
    with Pair p show ?thesis by (cases s) (simp_all add: rf_enter_def)
  next
    case (RFEvent ev)
    with Pair p show ?thesis
      by (cases s) (simp_all add: rf_on_def rf_enter_def split: RecoveryFlowEvent.splits)
  qed
qed

lemma recordedFirst_run:
  "rf_phase (fst cfg) = 0 \<Longrightarrow> recordedFirst (map fst (rf_run steps cfg))"
proof (induction steps arbitrary: cfg)
  case Nil
  then show ?case by (cases "fst cfg") simp_all
next
  case (Cons st steps)
  obtain impl i where st: "st = (impl, i)" by (cases st)
  from Cons.prems have hd: "fst cfg \<noteq> RecordToClaudeMd" "fst cfg \<noteq> DocumentWorkaround"
    "fst cfg \<noteq> TeamShareDecision" "fst cfg \<noteq> ShareWithTeam" "fst cfg \<noteq> RecoveryComplete"
    by auto
  from rf_step_phase0 [OF Cons.prems, of impl i]
  have "recordedFirst (map fst (rf_run steps (rf_step impl i cfg)))"
  proof
    assume "rf_phase (fst (rf_step impl i cfg)) = 0"
    then show ?thesis by (rule Cons.IH)
  next
    assume "fst (rf_step impl i cfg) = RecordToClaudeMd"
    then show ?thesis by (cases steps) (auto)
  qed
  with hd st show ?case by simp
qed

lemma recordedFirst_mem:
  "recordedFirst tr \<Longrightarrow> s \<in> set tr \<Longrightarrow>
   s = DocumentWorkaround \<or> s = TeamShareDecision \<or> s = ShareWithTeam \<or> s = RecoveryComplete \<Longrightarrow>
   RecordToClaudeMd \<in> set tr"
  by (induction tr) (auto split: if_splits)

lemma rf_share_only_flag:
  "fst (rf_step impl i cfg) = ShareWithTeam \<Longrightarrow> fst cfg \<noteq> ShareWithTeam \<Longrightarrow>
   fst cfg = TeamShareDecision \<and> i = RFTau \<and> shouldShareWithTeam (snd cfg)"
proof (cases cfg)
  case (Pair s ctx)
  assume a: "fst (rf_step impl i cfg) = ShareWithTeam" "fst cfg \<noteq> ShareWithTeam"
  show ?thesis
  proof (cases i)
    case RFTau
    with Pair a show ?thesis by (cases s) (simp_all add: rf_enter_def split: if_splits)
  next
    case (RFEvent ev)
    with Pair a show ?thesis
      by (cases s) (simp_all add: rf_on_def rf_enter_def split: RecoveryFlowEvent.splits)
  qed
qed


lemma rf_trace_A:
  "map fst (rf_run rf_stepsA (rf_start (rf_selecting ApproachA False))) =
     [PA_VerbalizeProblem, PA_AnalyzeCause, PA_IdentifyEssence, EscalationCheck,
      ApproachSelection, DR_HumanDirectFix, DR_AskAiExplanation, RecordToClaudeMd,
      DocumentWorkaround, TeamShareDecision, RecoveryComplete]"
  by (simp add: rf_stepsA_def rf_analysed_def rf_recorded_def rf_start_def rf_enter_def
        rf_on_def rf_selecting_def rf_initialContext_def analysisPlain_def
        checkImmediateEscalationNeeded_def)

lemma rf_trace_B:
  "map fst (rf_run rf_stepsB (rf_start (rf_selecting ApproachB False))) =
     [PA_VerbalizeProblem, PA_AnalyzeCause, PA_IdentifyEssence, EscalationCheck,
      ApproachSelection, Redecompose, RecordToClaudeMd,
      DocumentWorkaround, TeamShareDecision, RecoveryComplete]"
  by (simp add: rf_stepsB_def rf_analysed_def rf_recorded_def rf_start_def rf_enter_def
        rf_on_def rf_selecting_def rf_initialContext_def analysisPlain_def
        checkImmediateEscalationNeeded_def)

lemma rf_trace_C:
  "map fst (rf_run rf_stepsC (rf_start (rf_selecting ApproachC True))) =
     [PA_VerbalizeProblem, PA_AnalyzeCause, PA_IdentifyEssence, EscalationCheck,
      ApproachSelection, ResetContext, RecordToClaudeMd,
      DocumentWorkaround, TeamShareDecision, ShareWithTeam, RecoveryComplete]"
  by (simp add: rf_stepsC_def rf_analysed_def rf_recorded_def rf_start_def rf_enter_def
        rf_on_def rf_selecting_def rf_initialContext_def analysisPlain_def
        checkImmediateEscalationNeeded_def)

lemma rf_trace_D:
  "map fst (rf_run rf_stepsD (rf_start rf_noActions)) =
     [PA_VerbalizeProblem, PA_AnalyzeCause, PA_IdentifyEssence, EscalationCheck,
      ApproachSelection, EJ_CheckImmediate, EJ_Check30Min, EJ_Consider30Min,
      EJ_EscalationConfirmed, ConsultTeam, RecordToClaudeMd,
      DocumentWorkaround, TeamShareDecision, RecoveryComplete]"
  by (simp add: rf_stepsD_def rf_analysed_def rf_recorded_def rf_start_def rf_enter_def
        rf_on_def rf_noActions_def rf_initialContext_def analysisPlain_def
        checkImmediateEscalationNeeded_def checkDelayedEscalationNeeded_def)

text \<open>
  C8: in every run of the recovery flow from its initial state, whatever the injected
  actions do, no documentation, sharing or completion state occurs before the first
  \<open>recordToClaudeMd\<close>, and a run that reaches \<open>recoveryComplete\<close> has passed through
  \<open>recordToClaudeMd\<close>; a step enters \<open>shareWithTeam\<close> only from \<open>teamShareDecision\<close>
  with the share flag set; and the output is always \<open>{recovered: true}\<close>.
\<close>

theorem recovery_records_before_completion:
  "recordedFirst (map fst (rf_run steps (rf_start impl0)))
   \<and> (RecoveryComplete \<in> set (map fst (rf_run steps (rf_start impl0)))
        \<longrightarrow> RecordToClaudeMd \<in> set (map fst (rf_run steps (rf_start impl0))))
   \<and> (fst (rf_step impl i cfg) = ShareWithTeam \<and> fst cfg \<noteq> ShareWithTeam
        \<longrightarrow> fst cfg = TeamShareDecision \<and> i = RFTau \<and> shouldShareWithTeam (snd cfg))
   \<and> rf_output ctx = \<lparr>recovered = True\<rparr>"
proof -
  have first: "recordedFirst (map fst (rf_run steps (rf_start impl0)))"
    by (rule recordedFirst_run) (simp add: rf_start_def rf_enter_def)
  from recordedFirst_mem [OF first, of RecoveryComplete]
  have "RecoveryComplete \<in> set (map fst (rf_run steps (rf_start impl0)))
        \<longrightarrow> RecordToClaudeMd \<in> set (map fst (rf_run steps (rf_start impl0)))"
    by blast
  with first rf_share_only_flag [of impl i cfg] show ?thesis
    by (simp add: rf_output_def)
qed

theorem recovery_records_before_completion_witness:
  "RecoveryComplete \<in> set (map fst (rf_run rf_stepsA (rf_start (rf_selecting ApproachA False))))
   \<and> RecordToClaudeMd \<in> set (map fst (rf_run rf_stepsA (rf_start (rf_selecting ApproachA False))))
   \<and> RecoveryComplete \<in> set (map fst (rf_run rf_stepsB (rf_start (rf_selecting ApproachB False))))
   \<and> RecordToClaudeMd \<in> set (map fst (rf_run rf_stepsB (rf_start (rf_selecting ApproachB False))))
   \<and> RecoveryComplete \<in> set (map fst (rf_run rf_stepsC (rf_start (rf_selecting ApproachC True))))
   \<and> RecordToClaudeMd \<in> set (map fst (rf_run rf_stepsC (rf_start (rf_selecting ApproachC True))))
   \<and> RecoveryComplete \<in> set (map fst (rf_run rf_stepsD (rf_start rf_noActions)))
   \<and> RecordToClaudeMd \<in> set (map fst (rf_run rf_stepsD (rf_start rf_noActions)))
   \<and> fst (rf_step rf_noActions RFTau
             (TeamShareDecision, rf_initialContext\<lparr>shouldShareWithTeam := True\<rparr>))
       = ShareWithTeam
   \<and> shouldShareWithTeam (snd (TeamShareDecision, rf_initialContext\<lparr>shouldShareWithTeam := True\<rparr>))"
proof -
  have a: "RecoveryComplete \<in> set (map fst (rf_run rf_stepsA (rf_start (rf_selecting ApproachA False))))"
    by (simp add: rf_trace_A)
  have b: "RecoveryComplete \<in> set (map fst (rf_run rf_stepsB (rf_start (rf_selecting ApproachB False))))"
    by (simp add: rf_trace_B)
  have c: "RecoveryComplete \<in> set (map fst (rf_run rf_stepsC (rf_start (rf_selecting ApproachC True))))"
    by (simp add: rf_trace_C)
  have d: "RecoveryComplete \<in> set (map fst (rf_run rf_stepsD (rf_start rf_noActions)))"
    by (simp add: rf_trace_D)
  have s: "fst (rf_step rf_noActions RFTau
             (TeamShareDecision, rf_initialContext\<lparr>shouldShareWithTeam := True\<rparr>))
           = ShareWithTeam"
    by (simp add: rf_enter_def)
  from a recovery_records_before_completion
         [of rf_stepsA "rf_selecting ApproachA False" rf_noActions RFTau
             "(TeamShareDecision, rf_initialContext\<lparr>shouldShareWithTeam := True\<rparr>)"]
       s
  have a': "RecordToClaudeMd \<in> set (map fst (rf_run rf_stepsA (rf_start (rf_selecting ApproachA False))))"
    and s': "shouldShareWithTeam (snd (TeamShareDecision, rf_initialContext\<lparr>shouldShareWithTeam := True\<rparr>))"
    by simp_all
  from b recovery_records_before_completion [of rf_stepsB "rf_selecting ApproachB False"]
  have b': "RecordToClaudeMd \<in> set (map fst (rf_run rf_stepsB (rf_start (rf_selecting ApproachB False))))"
    by blast
  from c recovery_records_before_completion [of rf_stepsC "rf_selecting ApproachC True"]
  have c': "RecordToClaudeMd \<in> set (map fst (rf_run rf_stepsC (rf_start (rf_selecting ApproachC True))))"
    by blast
  from d recovery_records_before_completion [of rf_stepsD rf_noActions]
  have d': "RecordToClaudeMd \<in> set (map fst (rf_run rf_stepsD (rf_start rf_noActions)))"
    by blast
  from a a' b b' c c' d d' s s' show ?thesis by blast
qed

text \<open>
  C4: started on a context that holds an analysis, the escalation judgment has three
  courses. With a security issue, a production impact or a data-loss risk it goes from
  \<open>checkImmediate\<close> straight to \<open>executeImmediate\<close>, without entering \<open>check30Min\<close>, and
  resolves to escalate. Otherwise, with three or more retreats, an unknown cause or a
  problem out of skill scope it goes through \<open>check30Min\<close> to \<open>consider30Min\<close>, stays
  there until \<open>ESCALATION_DECIDED\<close> arrives, and then resolves to escalate. Otherwise it
  resolves to self.
\<close>

theorem escalation_two_tiers:
  assumes "analysisResult ctx = Some a"
  shows "(hasSecurityIssue a \<or> hasProductionImpact a \<or> hasDataLossRisk a \<longrightarrow>
            map fst (rf_run [(impl1, RFTau), (impl2, RFEvent ESCALATION_DECIDED)]
                       (EJ_CheckImmediate, ctx))
              = [EJ_CheckImmediate, EJ_ExecuteImmediate, EJ_EscalationConfirmed]
            \<and> escalationResult
                 (snd (last (rf_run [(impl1, RFTau), (impl2, RFEvent ESCALATION_DECIDED)]
                               (EJ_CheckImmediate, ctx)))) = Some Escalate)
       \<and> (\<not> (hasSecurityIssue a \<or> hasProductionImpact a \<or> hasDataLossRisk a)
            \<and> (retreatCount a \<ge> 3 \<or> isUnknownCause a \<or> isOutOfSkillScope a) \<longrightarrow>
            map fst (rf_run [(impl1, RFTau), (impl2, RFTau), (impl3, RFTau),
                             (impl4, RFEvent ESCALATION_DECIDED)]
                       (EJ_CheckImmediate, ctx))
              = [EJ_CheckImmediate, EJ_Check30Min, EJ_Consider30Min, EJ_Consider30Min,
                 EJ_EscalationConfirmed]
            \<and> escalationResult
                 (snd (last (rf_run [(impl1, RFTau), (impl2, RFTau), (impl3, RFTau),
                                     (impl4, RFEvent ESCALATION_DECIDED)]
                               (EJ_CheckImmediate, ctx)))) = Some Escalate)
       \<and> (\<not> (hasSecurityIssue a \<or> hasProductionImpact a \<or> hasDataLossRisk a)
            \<and> \<not> (retreatCount a \<ge> 3 \<or> isUnknownCause a \<or> isOutOfSkillScope a) \<longrightarrow>
            rf_run [(impl1, RFTau), (impl2, RFTau)] (EJ_CheckImmediate, ctx)
              = [(EJ_CheckImmediate, ctx), (EJ_Check30Min, ctx),
                 (EJ_SelfResolution, ctx\<lparr>escalationResult := Some Self\<rparr>)])"
  using assms
  by (simp add: checkImmediateEscalationNeeded_def checkDelayedEscalationNeeded_def
        rf_enter_def rf_on_def)

theorem escalation_two_tiers_witness:
  "map fst (rf_run [(rf_noActions, RFTau), (rf_noActions, RFEvent ESCALATION_DECIDED)]
              (EJ_CheckImmediate,
               rf_ctxWith (analysisPlain\<lparr>hasDataLossRisk := True, retreatCount := 5\<rparr>)))
     = [EJ_CheckImmediate, EJ_ExecuteImmediate, EJ_EscalationConfirmed]
   \<and> map fst (rf_run [(rf_noActions, RFTau), (rf_noActions, RFTau), (rf_noActions, RFTau),
                      (rf_noActions, RFEvent ESCALATION_DECIDED)]
                (EJ_CheckImmediate, rf_ctxWith (analysisPlain\<lparr>isUnknownCause := True\<rparr>)))
     = [EJ_CheckImmediate, EJ_Check30Min, EJ_Consider30Min, EJ_Consider30Min,
        EJ_EscalationConfirmed]
   \<and> map fst (rf_run [(rf_noActions, RFTau), (rf_noActions, RFTau)]
                (EJ_CheckImmediate, rf_ctxWith analysisPlain))
     = [EJ_CheckImmediate, EJ_Check30Min, EJ_SelfResolution]"
proof -
  have h1: "analysisResult (rf_ctxWith (analysisPlain\<lparr>hasDataLossRisk := True, retreatCount := 5\<rparr>))
              = Some (analysisPlain\<lparr>hasDataLossRisk := True, retreatCount := 5\<rparr>)"
    by (simp add: rf_ctxWith_def)
  have h2: "analysisResult (rf_ctxWith (analysisPlain\<lparr>isUnknownCause := True\<rparr>))
              = Some (analysisPlain\<lparr>isUnknownCause := True\<rparr>)"
    by (simp add: rf_ctxWith_def)
  have h3: "analysisResult (rf_ctxWith analysisPlain) = Some analysisPlain"
    by (simp add: rf_ctxWith_def)
  have p1: "hasSecurityIssue (analysisPlain\<lparr>hasDataLossRisk := True, retreatCount := 5\<rparr>)
            \<or> hasProductionImpact (analysisPlain\<lparr>hasDataLossRisk := True, retreatCount := 5\<rparr>)
            \<or> hasDataLossRisk (analysisPlain\<lparr>hasDataLossRisk := True, retreatCount := 5\<rparr>)"
    by simp
  have p2: "\<not> (hasSecurityIssue (analysisPlain\<lparr>isUnknownCause := True\<rparr>)
               \<or> hasProductionImpact (analysisPlain\<lparr>isUnknownCause := True\<rparr>)
               \<or> hasDataLossRisk (analysisPlain\<lparr>isUnknownCause := True\<rparr>))
            \<and> (retreatCount (analysisPlain\<lparr>isUnknownCause := True\<rparr>) \<ge> 3
               \<or> isUnknownCause (analysisPlain\<lparr>isUnknownCause := True\<rparr>)
               \<or> isOutOfSkillScope (analysisPlain\<lparr>isUnknownCause := True\<rparr>))"
    by (simp add: analysisPlain_def)
  have p3: "\<not> (hasSecurityIssue analysisPlain \<or> hasProductionImpact analysisPlain
               \<or> hasDataLossRisk analysisPlain)
            \<and> \<not> (retreatCount analysisPlain \<ge> 3 \<or> isUnknownCause analysisPlain
               \<or> isOutOfSkillScope analysisPlain)"
    by (simp add: analysisPlain_def)
  from escalation_two_tiers [OF h1, of rf_noActions rf_noActions] p1
  have t1: "map fst (rf_run [(rf_noActions, RFTau), (rf_noActions, RFEvent ESCALATION_DECIDED)]
              (EJ_CheckImmediate,
               rf_ctxWith (analysisPlain\<lparr>hasDataLossRisk := True, retreatCount := 5\<rparr>)))
     = [EJ_CheckImmediate, EJ_ExecuteImmediate, EJ_EscalationConfirmed]"
    by blast
  from escalation_two_tiers [OF h2, of rf_noActions rf_noActions rf_noActions rf_noActions] p2
  have t2: "map fst (rf_run [(rf_noActions, RFTau), (rf_noActions, RFTau), (rf_noActions, RFTau),
                      (rf_noActions, RFEvent ESCALATION_DECIDED)]
                (EJ_CheckImmediate, rf_ctxWith (analysisPlain\<lparr>isUnknownCause := True\<rparr>)))
     = [EJ_CheckImmediate, EJ_Check30Min, EJ_Consider30Min, EJ_Consider30Min,
        EJ_EscalationConfirmed]"
    by blast
  from escalation_two_tiers [OF h3, of rf_noActions rf_noActions] p3
  have "rf_run [(rf_noActions, RFTau), (rf_noActions, RFTau)]
                (EJ_CheckImmediate, rf_ctxWith analysisPlain)
     = [(EJ_CheckImmediate, rf_ctxWith analysisPlain), (EJ_Check30Min, rf_ctxWith analysisPlain),
        (EJ_SelfResolution, (rf_ctxWith analysisPlain)\<lparr>escalationResult := Some Self\<rparr>)]"
    by blast
  then have t3: "map fst (rf_run [(rf_noActions, RFTau), (rf_noActions, RFTau)]
                (EJ_CheckImmediate, rf_ctxWith analysisPlain))
     = [EJ_CheckImmediate, EJ_Check30Min, EJ_SelfResolution]"
    by (simp only: list.map fst_conv)
  from t1 t2 t3 show ?thesis by simp
qed

section \<open>Properties of the verification loop\<close>

lemma fold_keepsHistory:
  "keepsHistory impl \<Longrightarrow> errorHistory (fold impl as ctx) = errorHistory ctx"
  by (induction as arbitrary: ctx) (simp_all add: keepsHistory_def)

lemma vl_enter_history:
  "keepsHistory impl \<Longrightarrow> errorHistory (snd (vl_enter impl s ctx)) = errorHistory ctx"
  by (simp add: vl_enter_def fold_keepsHistory)

lemma allUnchanged_recordFailure:
  "allUnchanged (errorHistory ctx) \<Longrightarrow> allUnchanged (errorHistory (recordFailure r ctx))"
  by (simp add: allUnchanged_def recordFailure_def)

lemma vl_on_history:
  assumes "keepsHistory impl" and "allUnchanged (errorHistory ctx)"
  shows "allUnchanged (errorHistory (snd (vl_on impl ev s ctx)))"
proof (cases s)
  case (LossCutJudgment l)
  with assms show ?thesis
    by (cases l)
       (simp_all add: vl_on_def vl_enter_history
          split: VerificationLoopEvent.splits LossCutEvent.splits)
qed (use assms in \<open>simp_all add: vl_on_def vl_enter_history allUnchanged_recordFailure
        split: VerificationLoopEvent.splits\<close>)

lemma lc_always_history:
  "lc_always now l ctx = Inr (l', ctx') \<Longrightarrow> errorHistory ctx' = errorHistory ctx"
  by (cases l) (auto split: if_splits sum.splits)

lemma vl_always_history:
  assumes "keepsHistory impl" and "vl_always impl now s ctx = Inr (s', ctx')"
  shows "errorHistory ctx' = errorHistory ctx"
proof (cases s)
  case (LossCutJudgment l)
  show ?thesis
  proof (cases "lc_transient l")
    case True
    with assms LossCutJudgment obtain l' c where
      la: "lc_always now l ctx = Inr (l', c)" and
      en: "vl_enter impl (LossCutJudgment l') c = (s', ctx')"
      by (auto simp: vl_always_def split: sum.splits)
    from en have "errorHistory ctx' = errorHistory (snd (vl_enter impl (LossCutJudgment l') c))"
      by simp
    also have "\<dots> = errorHistory c" by (rule vl_enter_history [OF assms(1)])
    also have "\<dots> = errorHistory ctx" by (rule lc_always_history [OF la])
    finally show ?thesis .
  next
    case False
    with assms LossCutJudgment show ?thesis
      using vl_enter_history [OF assms(1), of IssueFix ctx]
            vl_enter_history [OF assms(1), of VerificationFailed ctx]
      by (auto simp: vl_always_def split: if_splits)
  qed
qed (use assms in \<open>auto simp: vl_always_def\<close>)

lemma vl_after_history:
  "keepsHistory impl \<Longrightarrow> errorHistory (snd (vl_after impl s ctx)) = errorHistory ctx"
  by (simp add: vl_after_def vl_enter_history)

lemma vl_step_history:
  assumes "keepsHistory impl" and "allUnchanged (errorHistory (vlCtx cfg))"
      and "vl_step impl i cfg = Inr cfg'"
  shows "allUnchanged (errorHistory (vlCtx cfg'))"
proof (cases i)
  case (VLEvent ev)
  with assms(3) have "vlCtx cfg' = snd (vl_on impl ev (vlState cfg) (vlCtx cfg))"
    by (auto simp: vl_step_def split: prod.splits)
  with vl_on_history [OF assms(1,2)] show ?thesis by simp
next
  case VLTau
  with assms(3) obtain s where "vl_always impl (clock cfg) (vlState cfg) (vlCtx cfg) = Inr (s, vlCtx cfg')"
    by (auto simp: vl_step_def split: sum.splits prod.splits)
  from vl_always_history [OF assms(1) this] assms(2) show ?thesis by simp
next
  case (VLAdvance d)
  with assms(3) have "vlCtx cfg' = snd (vl_after impl (vlState cfg) (vlCtx cfg)) \<or> vlCtx cfg' = vlCtx cfg"
    by (auto simp: vl_step_def split: if_splits prod.splits)
  with vl_after_history [OF assms(1)] assms(2) show ?thesis by auto
qed

lemma vl_exec_history:
  "list_all (\<lambda>st. keepsHistory (fst st)) steps \<Longrightarrow> allUnchanged (errorHistory (vlCtx cfg)) \<Longrightarrow>
   vl_exec steps cfg = Inr cfg' \<Longrightarrow> allUnchanged (errorHistory (vlCtx cfg'))"
proof (induction steps arbitrary: cfg)
  case Nil
  then show ?case by simp
next
  case (Cons st steps)
  obtain impl i where st: "st = (impl, i)" by (cases st)
  with Cons.prems obtain c where c: "vl_step impl i cfg = Inr c" "vl_exec steps c = Inr cfg'"
    by (auto split: sum.splits)
  from Cons.prems st have k: "keepsHistory impl" "list_all (\<lambda>st. keepsHistory (fst st)) steps"
    by simp_all
  from vl_step_history [OF k(1) Cons.prems(2) c(1)] Cons.IH [OF k(2) _ c(2)]
  show ?case by blast
qed

lemma vl_start_history:
  assumes "keepsHistory impl0"
  shows "allUnchanged (errorHistory (vlCtx (vl_start impl0 t0 definedAt)))"
proof -
  have "vlCtx (vl_start impl0 t0 definedAt)
          = snd (vl_enter impl0 Typecheck (vl_initialContext definedAt))"
    by (simp add: vl_start_def split: prod.splits)
  with vl_enter_history [OF assms, of Typecheck "vl_initialContext definedAt"]
  show ?thesis by (simp add: vl_initialContext_def allUnchanged_def)
qed

lemma allUnchanged_not_growing:
  assumes "allUnchanged (errorHistory ctx)"
  shows "\<not> checkGrowingComplexity ctx"
proof (cases "errorHistory ctx")
  case Nil
  then show ?thesis by (simp add: checkGrowingComplexity_def)
next
  case (Cons r rs)
  then have "last (errorHistory ctx) \<in> set (errorHistory ctx)" by simp
  with assms have "complexityDelta (last (errorHistory ctx)) = Unchanged"
    by (simp add: allUnchanged_def list_all_iff)
  with Cons show ?thesis by (simp add: checkGrowingComplexity_def)
qed

lemma keepsHistory_noActions: "keepsHistory vl_noActions"
  by (simp add: keepsHistory_def vl_noActions_def)

lemma vl_run_failThenFix:
  "vl_exec vl_failThenFix (vl_start vl_noActions 0 0) = Inr vl_cfgAfterFix"
  by (simp add: vl_failThenFix_def vl_start_def vl_enter_def vl_noActions_def
        vl_initialContext_def vl_step_def vl_on_def vl_always_def recordFailure_def
        checkFailed_def errLintA_def vl_cfgAfterFix_def
        checkErrorCount3OrMore_def checkOver30Min_def checkGrowingComplexity_def
        checkRecurringError_def)

text \<open>
  C10: the record that the loop appends on a check failure has the complexity trend
  \<open>unchanged\<close>. Hence in every run of the loop from its start, with injected actions
  that leave the history alone (the actions of the machine as written do), every record
  of the history has the trend \<open>unchanged\<close>, \<open>checkGrowingComplexity\<close> is false, and the
  state \<open>checkComplexity\<close> always falls through to \<open>checkRecurrence\<close>.
\<close>

theorem loop_never_cuts_on_complexity:
  assumes "keepsHistory impl0"
      and "list_all (\<lambda>st. keepsHistory (fst st)) steps"
      and "vl_exec steps (vl_start impl0 t0 definedAt) = Inr cfg"
  shows "complexityDelta (last (errorHistory (recordFailure r ctx))) = Unchanged
         \<and> allUnchanged (errorHistory (vlCtx cfg))
         \<and> \<not> checkGrowingComplexity (vlCtx cfg)
         \<and> lc_always now CheckComplexity (vlCtx cfg) = Inr (CheckRecurrence, vlCtx cfg)"
proof -
  from vl_exec_history [OF assms(2) vl_start_history [OF assms(1)] assms(3)]
  have u: "allUnchanged (errorHistory (vlCtx cfg))" .
  from allUnchanged_not_growing [OF u] u show ?thesis
    by (simp add: recordFailure_def)
qed

theorem loop_never_cuts_on_complexity_witness:
  "keepsHistory vl_noActions
   \<and> list_all (\<lambda>st. keepsHistory (fst st)) vl_failThenFix
   \<and> vl_exec vl_failThenFix (vl_start vl_noActions 0 0) = Inr vl_cfgAfterFix
   \<and> errorHistory (vlCtx vl_cfgAfterFix) \<noteq> []
   \<and> \<not> checkGrowingComplexity (vlCtx vl_cfgAfterFix)"
proof -
  have l: "list_all (\<lambda>st. keepsHistory (fst st)) vl_failThenFix"
    by (simp add: vl_failThenFix_def keepsHistory_noActions)
  have n: "errorHistory (vlCtx vl_cfgAfterFix) \<noteq> []"
    by (simp add: vl_cfgAfterFix_def)
  from loop_never_cuts_on_complexity [OF keepsHistory_noActions l vl_run_failThenFix]
       keepsHistory_noActions l vl_run_failThenFix n
  show ?thesis by blast
qed

lemma vl_step_timer:
  assumes "vl_step impl i cfg = Inr cfg'"
      and "clock cfg < armedAt cfg + 1800000 \<longrightarrow> timerPending cfg"
  shows "armedAt cfg' = armedAt cfg
         \<and> (clock cfg' < armedAt cfg' + 1800000 \<longrightarrow> timerPending cfg')"
proof (cases i)
  case (VLEvent ev)
  with assms show ?thesis by (auto simp: vl_step_def split: prod.splits)
next
  case VLTau
  with assms show ?thesis by (auto simp: vl_step_def split: sum.splits prod.splits)
next
  case (VLAdvance d)
  with assms show ?thesis by (auto simp: vl_step_def split: if_splits prod.splits)
qed

lemma vl_exec_timer:
  "vl_exec steps cfg = Inr cfg' \<Longrightarrow>
   (clock cfg < armedAt cfg + 1800000 \<longrightarrow> timerPending cfg) \<Longrightarrow>
   armedAt cfg' = armedAt cfg \<and> (clock cfg' < armedAt cfg' + 1800000 \<longrightarrow> timerPending cfg')"
proof (induction steps arbitrary: cfg)
  case Nil
  then show ?case by simp
next
  case (Cons st steps)
  obtain impl i where st: "st = (impl, i)" by (cases st)
  with Cons.prems obtain c where c: "vl_step impl i cfg = Inr c" "vl_exec steps c = Inr cfg'"
    by (auto split: sum.splits)
  from vl_step_timer [OF c(1) Cons.prems(2)] Cons.IH [OF c(2)]
  show ?case by simp
qed

lemma vl_start_timer:
  "armedAt (vl_start impl0 t0 definedAt) = t0 \<and> timerPending (vl_start impl0 t0 definedAt)"
  by (simp add: vl_start_def split: prod.splits)

lemma vl_advance_stage:
  assumes "vlState cfg = Typecheck \<or> vlState cfg = Lint \<or> vlState cfg = Test"
      and "timerPending cfg"
  shows "\<exists>cfg'. vl_step impl (VLAdvance d) cfg = Inr cfg'
           \<and> clock cfg' = clock cfg + int d \<and> armedAt cfg' = armedAt cfg
           \<and> vlState cfg' =
               (if clock cfg + int d \<ge> armedAt cfg + 1800000
                then LossCutJudgment RecordErrorState else vlState cfg)"
  using assms
  by (auto simp: vl_step_def vl_after_def vl_enter_def split: prod.splits)

text \<open>
  C5: the timer is armed once, when the loop starts at clock reading \<open>t0\<close>, and no
  transition arms it again. In every configuration that a run reaches before the
  deadline, with the loop in one of the check stages \<open>typecheck\<close>, \<open>lint\<close> or \<open>test\<close>
  (also after a fix has brought it back to \<open>typecheck\<close>), letting the clock advance moves
  the loop into \<open>lossCutJudgment\<close> as soon as 1800000 ms have passed since \<open>t0\<close>, and
  leaves the stage unchanged while less than that has passed.
\<close>

theorem loop_single_deadline:
  assumes "vl_exec steps (vl_start impl0 t0 definedAt) = Inr cfg"
      and "vlState cfg = Typecheck \<or> vlState cfg = Lint \<or> vlState cfg = Test"
      and "clock cfg < t0 + 1800000"
  shows "\<exists>cfg'. vl_step impl (VLAdvance d) cfg = Inr cfg'
           \<and> clock cfg' = clock cfg + int d \<and> armedAt cfg' = t0
           \<and> vlState cfg' =
               (if clock cfg + int d \<ge> t0 + 1800000
                then LossCutJudgment RecordErrorState else vlState cfg)"
proof -
  from vl_exec_timer [OF assms(1)] vl_start_timer [of impl0 t0 definedAt]
  have a: "armedAt cfg = t0" and p: "clock cfg < armedAt cfg + 1800000 \<longrightarrow> timerPending cfg"
    by simp_all
  from a p assms(3) have "timerPending cfg" by simp
  from vl_advance_stage [OF assms(2) this, of impl d] a show ?thesis by simp
qed

theorem loop_single_deadline_witness:
  "vl_exec vl_failThenFix (vl_start vl_noActions 0 0) = Inr vl_cfgAfterFix
   \<and> vlState vl_cfgAfterFix = Typecheck \<and> clock vl_cfgAfterFix = 1000000
   \<and> (\<exists>cfg'. vl_step vl_noActions (VLAdvance 800000) vl_cfgAfterFix = Inr cfg'
         \<and> vlState cfg' = LossCutJudgment RecordErrorState)
   \<and> (\<exists>cfg'. vl_step vl_noActions (VLAdvance 799999) vl_cfgAfterFix = Inr cfg'
         \<and> vlState cfg' = Typecheck)"
proof -
  have s: "vlState vl_cfgAfterFix = Typecheck \<or> vlState vl_cfgAfterFix = Lint
           \<or> vlState vl_cfgAfterFix = Test"
    and s': "vlState vl_cfgAfterFix = Typecheck"
    and c: "clock vl_cfgAfterFix < 0 + 1800000"
    and c': "clock vl_cfgAfterFix = 1000000"
    by (simp_all add: vl_cfgAfterFix_def)
  from loop_single_deadline [OF vl_run_failThenFix s c, of vl_noActions 800000] c' s'
  have f: "\<exists>cfg'. vl_step vl_noActions (VLAdvance 800000) vl_cfgAfterFix = Inr cfg'
         \<and> vlState cfg' = LossCutJudgment RecordErrorState"
    by auto
  from loop_single_deadline [OF vl_run_failThenFix s c, of vl_noActions 799999] c' s'
  have g: "\<exists>cfg'. vl_step vl_noActions (VLAdvance 799999) vl_cfgAfterFix = Inr cfg'
         \<and> vlState cfg' = Typecheck"
    by auto
  from vl_run_failThenFix s' c' f g show ?thesis by blast
qed

lemma vl_run_collaboration:
  "vl_exec (vl_allPass vl_collaborationViolation) (vl_start vl_collaborationViolation 0 0)
     = Inr vl_cfgCollaboration"
  by (simp add: vl_allPass_def vl_start_def vl_enter_def vl_collaborationViolation_def
        vl_initialContext_def vl_step_def vl_on_def checkOk_def vl_cfgCollaboration_def)

lemma vl_run_aiViolation:
  "vl_exec (vl_allPass vl_aiViolation) (vl_start vl_aiViolation 0 0) = Inr vl_cfgAiViolation
   \<and> vl_output (vlCtx vl_cfgAiViolation) = sp3PassedWithViolation"
  by (simp add: vl_allPass_def vl_start_def vl_enter_def vl_aiViolation_def
        vl_initialContext_def vl_step_def vl_on_def checkOk_def vl_cfgAiViolation_def
        vl_output_def sp3PassedWithViolation_def)

lemma keepsAiResult_aiPass: "keepsAiResult vl_aiPass"
  by (simp add: keepsAiResult_def vl_aiPass_def)

lemma vl_run_overwritten:
  "aiPrincipleCheckResult (vlCtx (vl_start vl_aiViolation 0 0))
     = Some \<lparr>pcr_passed = False, pcr_violations = [''A4'']\<rparr>
   \<and> vl_exec (vl_allPass vl_aiPass) (vl_start vl_aiViolation 0 0) = Inr vl_cfgOverwritten"
  by (simp add: vl_allPass_def vl_start_def vl_enter_def vl_aiViolation_def vl_aiPass_def
        vl_initialContext_def vl_step_def vl_on_def checkOk_def vl_cfgOverwritten_def)

lemma vl_step_toLint:
  "vl_step vl_aiPass (VLEvent (TYPECHECK_COMPLETE checkOk)) (vl_start vl_aiViolation 0 0)
     = Inr vl_cfgLint"
  by (simp add: vl_start_def vl_enter_def vl_aiViolation_def vl_aiPass_def
        vl_initialContext_def vl_step_def vl_on_def checkOk_def vl_cfgLint_def)

lemma fold_keepsAiResult:
  "keepsAiResult impl \<Longrightarrow> ActCheckAIPrinciples \<notin> set as \<Longrightarrow>
   aiPrincipleCheckResult (fold impl as ctx) = aiPrincipleCheckResult ctx"
  by (induction as arbitrary: ctx) (auto simp: keepsAiResult_def)

lemma vl_enter_keepsAiResult:
  "keepsAiResult impl \<Longrightarrow> \<not> isStage s \<Longrightarrow>
   aiPrincipleCheckResult (snd (vl_enter impl s ctx)) = aiPrincipleCheckResult ctx"
proof -
  assume k: "keepsAiResult impl" and n: "\<not> isStage s"
  from n have "ActCheckAIPrinciples \<notin> set (vl_entry s)"
    by (cases s rule: vl_entry.cases) (simp_all add: isStage_def)
  with k show ?thesis by (simp add: vl_enter_def fold_keepsAiResult)
qed

lemma lc_always_aiResult:
  fixes ctx :: VerificationLoopContext
  shows "lc_always now l ctx = Inr (l', ctx') \<Longrightarrow>
         aiPrincipleCheckResult ctx' = aiPrincipleCheckResult ctx"
  by (cases l) (auto split: if_splits sum.splits)

lemma vl_stage_entry:
  "isStage s \<Longrightarrow> \<exists>a. vl_entry s = [a, ActCheckCollaborationPrinciples, ActCheckAIPrinciples]"
  by (auto simp: isStage_def)

lemma vl_step_entry:
  assumes "vl_step impl i cfg = Inr cfg'"
      and "vlState cfg' \<noteq> vlState cfg" and "isStage (vlState cfg')"
  shows "vlCtx cfg' =
           fold impl (vl_entry (vlState cfg'))
             (if vlState cfg = IssueFix
              then (vlCtx cfg)\<lparr>currentStep := StepTypecheck, lossCutDecision := None\<rparr>
              else vlCtx cfg)"
proof (cases i)
  case (VLEvent ev)
  show ?thesis
  proof (cases "vlState cfg")
    case (LossCutJudgment l)
    with assms VLEvent show ?thesis
      by (cases l)
         (auto simp: vl_step_def vl_on_def vl_enter_def isStage_def
               split: VerificationLoopEvent.splits LossCutEvent.splits)
  qed (use assms VLEvent in \<open>auto simp: vl_step_def vl_on_def vl_enter_def isStage_def
          split: VerificationLoopEvent.splits if_splits\<close>)
next
  case VLTau
  with assms show ?thesis
    by (auto simp: vl_step_def vl_always_def vl_enter_def isStage_def
          split: VLState.splits sum.splits if_splits prod.splits)
next
  case (VLAdvance d)
  with assms show ?thesis
    by (auto simp: vl_step_def vl_after_def vl_enter_def isStage_def
          split: if_splits prod.splits)
qed

lemma vl_step_keepsAiResult:
  assumes k: "keepsAiResult impl" and st: "vl_step impl i cfg = Inr cfg'"
      and ne: "\<not> (vlState cfg' \<noteq> vlState cfg \<and> isStage (vlState cfg'))"
  shows "aiPrincipleCheckResult (vlCtx cfg') = aiPrincipleCheckResult (vlCtx cfg)"
proof (cases i)
  case (VLEvent ev)
  from k have r: "\<And>a c. a \<noteq> ActCheckAIPrinciples \<Longrightarrow>
                    aiPrincipleCheckResult (impl a c) = aiPrincipleCheckResult c"
    by (simp add: keepsAiResult_def)
  show ?thesis
  proof (cases "vlState cfg")
    case (LossCutJudgment l)
    with st VLEvent show ?thesis
      by (cases l)
         (auto simp: vl_step_def vl_on_def vl_enter_def r
               split: VerificationLoopEvent.splits LossCutEvent.splits)
  qed (use st ne VLEvent in \<open>auto simp: vl_step_def vl_on_def vl_enter_def isStage_def
          recordFailure_def r split: VerificationLoopEvent.splits if_splits\<close>)
next
  case VLTau
  show ?thesis
  proof (cases "vlState cfg")
    case (LossCutJudgment l)
    show ?thesis
    proof (cases "lc_transient l")
      case True
      with st VLTau LossCutJudgment obtain l' c where
        la: "lc_always (clock cfg) l (vlCtx cfg) = Inr (l', c)" and
        en: "vlCtx cfg' = snd (vl_enter impl (LossCutJudgment l') c)"
        by (auto simp: vl_step_def vl_always_def split: sum.splits prod.splits)
      from en vl_enter_keepsAiResult [OF k, of "LossCutJudgment l'" c]
           lc_always_aiResult [OF la]
      show ?thesis by (simp add: isStage_def)
    next
      case False
      with st VLTau LossCutJudgment
           vl_enter_keepsAiResult [OF k, of IssueFix "vlCtx cfg"]
           vl_enter_keepsAiResult [OF k, of VerificationFailed "vlCtx cfg"]
      show ?thesis
        by (auto simp: vl_step_def vl_always_def isStage_def split: if_splits prod.splits)
    qed
  qed (use st VLTau in \<open>auto simp: vl_step_def vl_always_def\<close>)
next
  case (VLAdvance d)
  with st vl_enter_keepsAiResult [OF k, of "LossCutJudgment RecordErrorState" "vlCtx cfg"]
  show ?thesis
    by (auto simp: vl_step_def vl_after_def isStage_def split: if_splits prod.splits)
qed

lemma vl_exec_lastEntry:
  "list_all (\<lambda>st. keepsAiResult (fst st)) steps \<Longrightarrow> vl_exec steps cfg = Inr cfg' \<Longrightarrow>
   aiPrincipleCheckResult (vlCtx cfg) = aiPrincipleCheckResult (vlCtx e) \<Longrightarrow>
   aiPrincipleCheckResult (vlCtx cfg')
     = aiPrincipleCheckResult (vlCtx (afterLastEntry steps cfg e))"
proof (induction steps arbitrary: cfg e)
  case Nil
  then show ?case by simp
next
  case (Cons st steps)
  obtain impl i where st: "st = (impl, i)" by (cases st)
  with Cons.prems obtain c where c: "vl_step impl i cfg = Inr c" "vl_exec steps c = Inr cfg'"
    by (auto split: sum.splits)
  from Cons.prems st have k: "keepsAiResult impl" "list_all (\<lambda>st. keepsAiResult (fst st)) steps"
    by simp_all
  show ?case
  proof (cases "vlState c \<noteq> vlState cfg \<and> isStage (vlState c)")
    case True
    from Cons.IH [of c c, OF k(2) c(2)] True st c(1) show ?thesis by simp
  next
    case False
    from vl_step_keepsAiResult [OF k(1) c(1) False] Cons.prems(3)
    have "aiPrincipleCheckResult (vlCtx c) = aiPrincipleCheckResult (vlCtx e)" by simp
    from Cons.IH [OF k(2) c(2) this] False st c(1) show ?thesis by auto
  qed
qed

lemma vl_start_ctx:
  "vlCtx (vl_start impl0 t0 definedAt)
     = fold impl0 (vl_entry Typecheck) (vl_initialContext definedAt)"
  by (simp add: vl_start_def vl_enter_def)

text \<open>
  C6, as stated, fails twice. In a passing run whose collaboration-principle monitor
  stores a violation on every stage entry, the output reports no principle violation.
  And a violation that the agent-behaviour monitor stores on entry to \<open>typecheck\<close> is
  not latched: the monitor runs again on entry to \<open>lint\<close>, its new result replaces the
  old one, and the output of the passing run reports no violation.
\<close>

theorem monitor_violations_not_reported:
  "vl_exec (vl_allPass vl_collaborationViolation) (vl_start vl_collaborationViolation 0 0)
     = Inr vl_cfgCollaboration
   \<and> collaborationCheckResult (vlCtx vl_cfgCollaboration)
       = Some \<lparr>pcr_passed = False, pcr_violations = [''C1'']\<rparr>
   \<and> principleViolation (vl_output (vlCtx vl_cfgCollaboration)) = False
   \<and> aiPrincipleCheckResult (vlCtx (vl_start vl_aiViolation 0 0))
       = Some \<lparr>pcr_passed = False, pcr_violations = [''A4'']\<rparr>
   \<and> vl_exec (vl_allPass vl_aiPass) (vl_start vl_aiViolation 0 0) = Inr vl_cfgOverwritten
   \<and> principleViolation (vl_output (vlCtx vl_cfgOverwritten)) = False"
  using vl_run_collaboration vl_run_overwritten
  by (simp add: vl_cfgCollaboration_def vl_cfgOverwritten_def vl_output_def)

text \<open>
  C6, amended: both monitors run on every entry of a check stage, the start of the loop
  and the re-entry of \<open>typecheck\<close> after a fix included, the agent-behaviour monitor
  last. When no other injected action writes \<open>aiPrincipleCheckResult\<close>, the output field
  \<open>principleViolation\<close> of a run is true exactly when the result that the
  agent-behaviour monitor stored on the most recent stage entry is a failure, however
  the run ended. The result of the collaboration monitor and the loss-cut decision do
  not influence it.
\<close>

theorem principleViolation_is_last_ai_check:
  assumes "list_all (\<lambda>st. keepsAiResult (fst st)) steps"
      and "vl_exec steps (vl_start impl0 t0 definedAt) = Inr cfg"
  shows "principleViolation (vl_output (vlCtx cfg))
           = (case aiPrincipleCheckResult
                     (vlCtx (afterLastEntry steps (vl_start impl0 t0 definedAt)
                               (vl_start impl0 t0 definedAt))) of
                None \<Rightarrow> False
              | Some r \<Rightarrow> \<not> pcr_passed r)
         \<and> vlCtx (vl_start impl0 t0 definedAt)
             = fold impl0 (vl_entry Typecheck) (vl_initialContext definedAt)
         \<and> (isStage s \<longrightarrow>
              (\<exists>a. vl_entry s = [a, ActCheckCollaborationPrinciples, ActCheckAIPrinciples]))
         \<and> (vl_step impl i c = Inr c' \<and> vlState c' \<noteq> vlState c \<and> isStage (vlState c') \<longrightarrow>
              vlCtx c' =
                fold impl (vl_entry (vlState c'))
                  (if vlState c = IssueFix
                   then (vlCtx c)\<lparr>currentStep := StepTypecheck, lossCutDecision := None\<rparr>
                   else vlCtx c))
         \<and> principleViolation
               (vl_output (ctx\<lparr>collaborationCheckResult := cr, lossCutDecision := d\<rparr>))
             = principleViolation (vl_output ctx)"
proof -
  from vl_exec_lastEntry [OF assms, of "vl_start impl0 t0 definedAt"]
  have "aiPrincipleCheckResult (vlCtx cfg)
          = aiPrincipleCheckResult
              (vlCtx (afterLastEntry steps (vl_start impl0 t0 definedAt)
                        (vl_start impl0 t0 definedAt)))"
    by simp
  then have out: "principleViolation (vl_output (vlCtx cfg))
           = (case aiPrincipleCheckResult
                     (vlCtx (afterLastEntry steps (vl_start impl0 t0 definedAt)
                               (vl_start impl0 t0 definedAt))) of
                None \<Rightarrow> False
              | Some r \<Rightarrow> \<not> pcr_passed r)"
    by (simp add: vl_output_def split: option.splits)
  have ent: "vl_step impl i c = Inr c' \<and> vlState c' \<noteq> vlState c \<and> isStage (vlState c') \<longrightarrow>
              vlCtx c' =
                fold impl (vl_entry (vlState c'))
                  (if vlState c = IssueFix
                   then (vlCtx c)\<lparr>currentStep := StepTypecheck, lossCutDecision := None\<rparr>
                   else vlCtx c)"
    using vl_step_entry [of impl i c c'] by blast
  have ind: "principleViolation
               (vl_output (ctx\<lparr>collaborationCheckResult := cr, lossCutDecision := d\<rparr>))
             = principleViolation (vl_output ctx)"
    by (simp add: vl_output_def)
  from out vl_start_ctx [of impl0 t0 definedAt] vl_stage_entry [of s] ent ind
  show ?thesis by blast
qed

theorem principleViolation_is_last_ai_check_witness:
  "list_all (\<lambda>st. keepsAiResult (fst st)) (vl_allPass vl_aiPass)
   \<and> vl_exec (vl_allPass vl_aiPass) (vl_start vl_aiViolation 0 0) = Inr vl_cfgOverwritten
   \<and> principleViolation (vl_output (vlCtx vl_cfgOverwritten))
       = (case aiPrincipleCheckResult
                 (vlCtx (afterLastEntry (vl_allPass vl_aiPass) (vl_start vl_aiViolation 0 0)
                           (vl_start vl_aiViolation 0 0))) of
            None \<Rightarrow> False
          | Some r \<Rightarrow> \<not> pcr_passed r)
   \<and> principleViolation (vl_output (vlCtx vl_cfgOverwritten)) = False
   \<and> isStage Lint
   \<and> vl_entry Lint = [ActRunLint, ActCheckCollaborationPrinciples, ActCheckAIPrinciples]
   \<and> vl_step vl_aiPass (VLEvent (TYPECHECK_COMPLETE checkOk)) (vl_start vl_aiViolation 0 0)
       = Inr vl_cfgLint
   \<and> vlState vl_cfgLint \<noteq> vlState (vl_start vl_aiViolation 0 0)
   \<and> vlCtx vl_cfgLint
       = fold vl_aiPass (vl_entry (vlState vl_cfgLint))
           (if vlState (vl_start vl_aiViolation 0 0) = IssueFix
            then (vlCtx (vl_start vl_aiViolation 0 0))
                   \<lparr>currentStep := StepTypecheck, lossCutDecision := None\<rparr>
            else vlCtx (vl_start vl_aiViolation 0 0))"
proof -
  have l: "list_all (\<lambda>st. keepsAiResult (fst st)) (vl_allPass vl_aiPass)"
    by (simp add: vl_allPass_def keepsAiResult_aiPass)
  have r: "vl_exec (vl_allPass vl_aiPass) (vl_start vl_aiViolation 0 0) = Inr vl_cfgOverwritten"
    using vl_run_overwritten by simp
  have f: "principleViolation (vl_output (vlCtx vl_cfgOverwritten)) = False"
    by (simp add: vl_cfgOverwritten_def vl_output_def)
  have g: "isStage Lint" by (simp add: isStage_def)
  have n: "vlState vl_cfgLint \<noteq> vlState (vl_start vl_aiViolation 0 0)"
    by (simp add: vl_cfgLint_def vl_start_def vl_enter_def)
  have g': "isStage (vlState vl_cfgLint)" by (simp add: vl_cfgLint_def isStage_def)
  have e: "vl_entry Lint = [ActRunLint, ActCheckCollaborationPrinciples, ActCheckAIPrinciples]"
    by simp
  from principleViolation_is_last_ai_check
         [OF l r, of Lint vl_aiPass "VLEvent (TYPECHECK_COMPLETE checkOk)"
                     "vl_start vl_aiViolation 0 0" vl_cfgLint]
       vl_step_toLint n g'
  have "principleViolation (vl_output (vlCtx vl_cfgOverwritten))
       = (case aiPrincipleCheckResult
                 (vlCtx (afterLastEntry (vl_allPass vl_aiPass) (vl_start vl_aiViolation 0 0)
                           (vl_start vl_aiViolation 0 0))) of
            None \<Rightarrow> False
          | Some r \<Rightarrow> \<not> pcr_passed r)"
    and "vlCtx vl_cfgLint
       = fold vl_aiPass (vl_entry (vlState vl_cfgLint))
           (if vlState (vl_start vl_aiViolation 0 0) = IssueFix
            then (vlCtx (vl_start vl_aiViolation 0 0))
                   \<lparr>currentStep := StepTypecheck, lossCutDecision := None\<rparr>
            else vlCtx (vl_start vl_aiViolation 0 0))"
    by blast+
  with l r f g e vl_step_toLint n show ?thesis by blast
qed

section \<open>Properties of the orchestrator\<close>

lemma mf_step_review:
  "(aiGenerated (snd cfg) \<and> fst cfg \<noteq> HumanReview \<longrightarrow> flag) \<Longrightarrow>
   aiGenerated (snd (mf_step i cfg)) \<and> fst (mf_step i cfg) \<noteq> HumanReview \<longrightarrow>
     flag \<or> (fst cfg = HumanReview \<and> isReviewDone i)"
proof (cases cfg)
  case (Pair s ctx)
  assume inv: "aiGenerated (snd cfg) \<and> fst cfg \<noteq> HumanReview \<longrightarrow> flag"
  with Pair show ?thesis
    by (cases s)
       (auto simp: mf_step_def aiGenerated_def
             split: MFInput.splits MainFlowEvent.splits if_splits option.splits)
qed

lemma mf_exec_review:
  "(aiGenerated (snd cfg) \<and> fst cfg \<noteq> HumanReview \<longrightarrow> flag) \<Longrightarrow>
   aiGenerated (snd (mf_exec ins cfg)) \<and> fst (mf_exec ins cfg) \<noteq> HumanReview \<longrightarrow>
     flag \<or> reviewAccepted ins cfg"
proof (induction ins arbitrary: cfg flag)
  case Nil
  then show ?case by simp
next
  case (Cons i ins)
  from Cons.IH [OF mf_step_review [OF Cons.prems, of i]]
  show ?case by auto
qed

lemma mf_step_verdict:
  assumes "aiGenerated (snd cfg) \<and> fst cfg \<noteq> HumanReview \<longrightarrow>
           (\<exists>r. executionResult (snd cfg) = Some r \<and> v = Some (humanReviewed r))"
  shows "aiGenerated (snd (mf_step i cfg)) \<and> fst (mf_step i cfg) \<noteq> HumanReview \<longrightarrow>
         (\<exists>r. executionResult (snd (mf_step i cfg)) = Some r
              \<and> draftVerdict v (fst cfg) i = Some (humanReviewed r))"
proof (cases cfg)
  case (Pair s ctx)
  with assms show ?thesis
    by (cases s)
       (auto simp: mf_step_def aiGenerated_def draftVerdict_def
             split: MFInput.splits MainFlowEvent.splits if_splits option.splits)
qed

lemma mf_exec_verdict:
  "(aiGenerated (snd cfg) \<and> fst cfg \<noteq> HumanReview \<longrightarrow>
      (\<exists>r. executionResult (snd cfg) = Some r \<and> v = Some (humanReviewed r))) \<Longrightarrow>
   aiGenerated (snd (mf_exec ins cfg)) \<and> fst (mf_exec ins cfg) \<noteq> HumanReview \<longrightarrow>
     (\<exists>r. executionResult (snd (mf_exec ins cfg)) = Some r
          \<and> currentVerdict v ins cfg = Some (humanReviewed r))"
proof (induction ins arbitrary: cfg v)
  case Nil
  then show ?case by simp
next
  case (Cons i ins)
  from Cons.IH [OF mf_step_verdict [OF Cons.prems, of i]]
  show ?case by simp
qed

lemma mf_start_not_ai: "\<not> aiGenerated (snd mf_start)"
  by (simp add: mf_start_def aiGenerated_def createMainFlowContext_def)

lemma mf_run_twoDrafts:
  "mf_exec mf_twoDrafts mf_start =
     (TaskCompleted,
      (createMainFlowContext [])
        \<lparr>sp1Result := Some \<lparr>sp1_verdict = AllPass, failedLevel = None, evaluatedLevels = 4\<rparr>,
         sp2Result := Some sp2AiLed,
         executionResult := Some \<lparr>er_output = Some ''draft 2'', isAiGenerated = Some True,
                                  humanReviewed = False\<rparr>,
         sp3Result := Some sp3Passed,
         hasPrincipleViolation := True\<rparr>)"
  by (simp add: mf_twoDrafts_def mf_start_def mf_step_def createMainFlowContext_def
        sp1AllPassed_def sp2AiLed_def sp3Passed_def sp3Violation_def)

text \<open>
  C7: in every run of the orchestrator from its initial state, if the machine is in
  \<open>taskCompleted\<close> and the execution result was produced by the AI path
  (\<open>isAiGenerated\<close> is true), then the draft that the result holds has received its own
  verdict: after the \<open>EXECUTE_AI\<close> that produced it, \<open>HUMAN_REVIEW_DONE\<close> was delivered
  in \<open>humanReview\<close>, and \<open>humanReviewed\<close> is the verdict of that review. A review of an
  earlier draft does not count: each \<open>EXECUTE_AI\<close> clears the verdict. In particular
  some step of the run delivered \<open>HUMAN_REVIEW_DONE\<close> in \<open>humanReview\<close>.
\<close>

theorem ai_output_needs_review:
  "fst (mf_exec ins mf_start) = TaskCompleted \<and> aiGenerated (snd (mf_exec ins mf_start))
   \<longrightarrow> reviewAccepted ins mf_start
       \<and> (\<exists>r. executionResult (snd (mf_exec ins mf_start)) = Some r
               \<and> currentVerdict None ins mf_start = Some (humanReviewed r))"
  using mf_exec_review [of mf_start False ins] mf_exec_verdict [of mf_start None ins]
        mf_start_not_ai
  by auto

theorem ai_output_needs_review_witness:
  "fst (mf_exec mf_twoDrafts mf_start) = TaskCompleted
   \<and> aiGenerated (snd (mf_exec mf_twoDrafts mf_start))
   \<and> reviewAccepted mf_twoDrafts mf_start
   \<and> (\<exists>r. executionResult (snd (mf_exec mf_twoDrafts mf_start)) = Some r
           \<and> currentVerdict None mf_twoDrafts mf_start = Some (humanReviewed r))"
proof -
  have h: "fst (mf_exec mf_twoDrafts mf_start) = TaskCompleted
           \<and> aiGenerated (snd (mf_exec mf_twoDrafts mf_start))"
    by (simp add: mf_run_twoDrafts aiGenerated_def)
  with ai_output_needs_review [of mf_twoDrafts] show ?thesis by blast
qed

text \<open>
  C1: the \<open>onDone\<close> branches of \<open>sp3Verification\<close> test \<open>passed\<close> first. On a
  verification output with both \<open>passed\<close> and \<open>principleViolation\<close> true the
  orchestrator therefore ends in \<open>taskCompleted\<close>, it does not return to
  \<open>brightLinesCheck\<close>, and \<open>hasPrincipleViolation\<close> stays false.
\<close>

theorem orchestrator_completes_on_passed_violation:
  "mf_exec (mf_toSp3Human @ [Sp3Done sp3PassedWithViolation]) mf_start =
     (TaskCompleted,
      (createMainFlowContext [])
        \<lparr>sp1Result := Some \<lparr>sp1_verdict = AllPass, failedLevel = None, evaluatedLevels = 4\<rparr>,
         sp2Result := Some sp2HumanLed,
         executionResult := Some \<lparr>er_output = Some ''patch'', isAiGenerated = Some False,
                                  humanReviewed = True\<rparr>,
         sp3Result := Some sp3PassedWithViolation\<rparr>)"
  by (simp add: mf_toSp3Human_def mf_start_def mf_step_def createMainFlowContext_def
        sp1AllPassed_def sp2HumanLed_def sp3PassedWithViolation_def)

end
